theory Spec2Isabelle
  imports Complex_Main
begin

section \<open>The smoothed categorical-likelihood encoder of sklearn-pipeline.py\<close>

text \<open>
  Conventions of the embedding.
  \<^item> A Python float is an IEEE 754 double, modelled by the real number it stands for. Every
    float operation of the source is the exact operation followed by \<open>fl\<close>, rounding to
    the nearest double with ties to even. \<open>math.exp\<close> is taken to be correctly rounded
    and raises \<open>OverflowError\<close> where its result would be infinite. Infinities and
    \<open>NaN\<close> are not values of the model: \<open>threshold\<close> is a finite number, and a
    missing cell of a frame is \<open>None\<close>.
  \<^item> The script is Python 2 (line 120 is a print statement and there is no
    \<open>from __future__ import division\<close>): \<open>/\<close> between two integer scalars is floor
    division. Division of two pandas columns is true division whatever their type.
  \<^item> Row counts are below \<open>2 ^ 53\<close>, so a count and a sum of counts are held exactly
    whether the column is \<open>int64\<close> or \<open>float64\<close>.
  \<^item> The label column \<open>interest_level\<close> holds one of the three classes the script knows
    (\<open>target_num_map\<close>, line 387) or is missing, as it is for the test rows.
  \<^item> \<open>np.random.uniform()\<close> reads the next element of a sequence of draws and advances
    the generator; the sequence is a parameter of the model.
  \<^item> An attribute that was never assigned is \<open>None\<close>; reading it raises
    \<open>AttributeError\<close>.
\<close>

datatype interest = High | Medium | Low

datatype error = KeyError string | AttributeError string | TypeError string
  | OverflowError string | IndexError string

subsection \<open>Double precision\<close>

text \<open>Rounding a real number to the nearest integer, a tie to the even one.\<close>

definition rne :: "real \<Rightarrow> int" where
  "rne y = (let f = \<lfloor>y\<rfloor> in
     if y - of_int f < 1 / 2 then f
     else if 1 / 2 < y - of_int f then f + 1
     else if even f then f else f + 1)"

text \<open>
  The exponent of the unit in the last place of the doubles around \<open>x\<close>: 53 bits of
  precision, and the least exponent \<open>- 1022\<close> of a normal number, below which the
  spacing stays \<open>2 powi - 1074\<close>.
\<close>

definition ulp_exp :: "real \<Rightarrow> int" where
  "ulp_exp x = max \<lfloor>log 2 \<bar>x\<bar>\<rfloor> (- 1022) - 52"

text \<open>
  The double nearest to \<open>x\<close>. A result of magnitude \<open>2 ^ 1024\<close> or more stands for
  an infinity; of the operations of \<open>fit\<close> only \<open>math.exp\<close> can reach it.
\<close>

definition fl :: "real \<Rightarrow> real" where
  "fl x = (if x = 0 then 0
     else sgn x * (of_int (rne (\<bar>x\<bar> / 2 powi ulp_exp x)) * 2 powi ulp_exp x))"

text \<open>\<open>math.exp\<close>: an infinite result is reported as \<open>OverflowError\<close>; a result that
  underflows is \<open>0.0\<close>.\<close>

definition math_exp :: "real \<Rightarrow> error + real" where
  "math_exp x =
     (if 2 ^ 1024 \<le> fl (exp x) then Inl (OverflowError ''math range error'')
      else Inr (fl (exp x)))"

text \<open>
  A cell of a float column: \<open>None\<close> is \<open>NaN\<close>.
\<close>

type_synonym cell = "real option"

text \<open>
  What the attribute \<open>mapping_\<close> holds once assigned: the empty dict that
  \<open>_reset\<close> stores, or the frame that \<open>fit\<close> stores.
\<close>

datatype 'f attr = Dict | Frame 'f

subsection \<open>The random number generator\<close>

type_synonym rng = "nat \<Rightarrow> real"

definition uniform :: "rng \<Rightarrow> real \<times> rng" where
  "uniform g = (g 0, \<lambda>i. g (Suc i))"

subsection \<open>Frames\<close>

text \<open>A row of the frame handed to \<open>fit\<close>: the cell of the encoded column and the label.\<close>

record 'k listing =
  category :: "'k option"
  interest_level :: "interest option"

text \<open>
  A row of \<open>tmp\<close> after \<open>groupby(...).size().unstack().reset_index()\<close> and
  \<open>fillna(0)\<close>: the category and the number of its rows for each label.
\<close>

record 'k grouped =
  gkey :: 'k
  high :: real
  medium :: real
  low :: real

text \<open>A row of the fitted mapping (lines 98-99): the two statistics and the category.\<close>

record 'k mapping_row =
  w_high :: real
  w_med :: real
  mkey :: 'k

record 'k mapping_frame =
  columns :: "string list"
  rows :: "'k mapping_row list"

text \<open>
  The object: \<open>__init__\<close> assigns the first two attributes only. The field
  \<open>mapping\<close> is the attribute \<open>mapping_\<close>.
\<close>

record 'k categorical_transformer =
  threshold :: real
  column_name :: string
  mapping :: "'k mapping_frame attr option"
  glob_med :: "real option"
  glob_high :: "real option"
  glob_low :: "real option"

definition init :: "string \<Rightarrow> real \<Rightarrow> 'k categorical_transformer" where
  "init name k = \<lparr>threshold = k, column_name = name, mapping = None,
     glob_med = None, glob_high = None, glob_low = None\<rparr>"

definition reset :: "'k categorical_transformer \<Rightarrow> 'k categorical_transformer" where
  "reset self =
     (if mapping self \<noteq> None
      then self\<lparr>mapping := Some Dict,
                glob_med := Some 0, glob_high := Some 0, glob_low := Some 0\<rparr>
      else self)"

subsection \<open>fit\<close>

text \<open>\<open>Series.apply\<close> stops at the first element whose function raises.\<close>

fun apply_all :: "('a \<Rightarrow> error + 'b) \<Rightarrow> 'a list \<Rightarrow> error + 'b list" where
  "apply_all f [] = Inr []"
| "apply_all f (x # xs) =
     (case f x of
        Inl e \<Rightarrow> Inl e
      | Inr y \<Rightarrow> (case apply_all f xs of Inl e \<Rightarrow> Inl e | Inr ys \<Rightarrow> Inr (y # ys)))"

text \<open>
  \<open>groupby\<close> drops a row whose category or label is missing, and sorts the group keys.
\<close>

fun labelled :: "'k listing \<Rightarrow> ('k \<times> interest) option" where
  "labelled r =
     (case (category r, interest_level r) of
        (Some k, Some l) \<Rightarrow> Some (k, l)
      | _ \<Rightarrow> None)"

definition pairs :: "'k listing list \<Rightarrow> ('k \<times> interest) list" where
  "pairs X = List.map_filter labelled X"

definition group_size :: "('k \<times> interest) list \<Rightarrow> 'k \<Rightarrow> interest \<Rightarrow> real" where
  "group_size ps k l = real (length (filter (\<lambda>p. p = (k, l)) ps))"

definition group_keys :: "('k::linorder \<times> interest) list \<Rightarrow> 'k list" where
  "group_keys ps = sort (remdups (map fst ps))"

text \<open>
  \<open>unstack\<close> makes one column for each label that occurs in the frame, so
  \<open>tmp['high']\<close> raises \<open>KeyError\<close> when no row is labelled high, and likewise for the
  other two; line 73 reads the three columns in this order.
\<close>

definition grouped_table :: "('k::linorder) listing list \<Rightarrow> error + 'k grouped list" where
  "grouped_table X =
     (let ps = pairs X in
      if High \<notin> snd ` set ps then Inl (KeyError ''high'')
      else if Medium \<notin> snd ` set ps then Inl (KeyError ''medium'')
      else if Low \<notin> snd ` set ps then Inl (KeyError ''low'')
      else Inr (map (\<lambda>k. \<lparr>gkey = k, high = group_size ps k High,
                              medium = group_size ps k Medium,
                              low = group_size ps k Low\<rparr>) (group_keys ps)))"

text \<open>
  \<open>unstack\<close> gives \<open>int64\<close> columns when every category has every label and
  \<open>float64\<close> columns otherwise; a count is at least 1, so a cell is 0 exactly where
  \<open>fillna(0)\<close> wrote it.
\<close>

definition int_columns :: "'k grouped list \<Rightarrow> bool" where
  "int_columns tmp = list_all (\<lambda>r. high r \<noteq> 0 \<and> medium r \<noteq> 0 \<and> low r \<noteq> 0) tmp"

text \<open>Lines 73-75: the columns \<open>record_count\<close>, \<open>high_share\<close> and \<open>med_share\<close>.\<close>

definition record_count :: "'k grouped \<Rightarrow> real" where
  "record_count r = high r + medium r + low r"

definition high_share :: "'k grouped \<Rightarrow> real" where
  "high_share r = fl (high r / record_count r)"

definition med_share :: "'k grouped \<Rightarrow> real" where
  "med_share r = fl (medium r / record_count r)"

text \<open>
  Lines 77-78: the quotient of two column sums. The sums are integer scalars when the
  columns are \<open>int64\<close>, and their quotient is then the floor.
\<close>

definition glob_share :: "('k grouped \<Rightarrow> real) \<Rightarrow> 'k grouped list \<Rightarrow> real" where
  "glob_share col tmp =
     (if int_columns tmp
      then of_int \<lfloor>sum_list (map col tmp) / sum_list (map record_count tmp)\<rfloor>
      else fl (sum_list (map col tmp) / sum_list (map record_count tmp)))"

text \<open>Lines 80-81: \<open>1.0 / (1.0 + math.exp(self.threshold - x))\<close>.\<close>

definition lambda :: "real \<Rightarrow> real \<Rightarrow> error + real" where
  "lambda k x =
     (case math_exp (fl (k - x)) of
        Inl e \<Rightarrow> Inl e
      | Inr e \<Rightarrow> Inr (fl (1 / fl (1 + e))))"

text \<open>Lines 83-91: \<open>row['lambda'] * share + (1.0 - row['lambda']) * glob\<close>.\<close>

definition blend :: "real \<Rightarrow> real \<Rightarrow> real \<Rightarrow> real" where
  "blend lam share glob = fl (fl (lam * share) + fl (fl (1 - lam) * glob))"

text \<open>Lines 93-96: \<open>x * (1.0 + 0.01 * (np.random.uniform() - 0.5))\<close>; the literal
  \<open>0.01\<close> is the double nearest to it.\<close>

definition jitter :: "real \<Rightarrow> real \<Rightarrow> real" where
  "jitter x u = fl (x * fl (1 + fl (fl 0.01 * fl (u - 0.5))))"

text \<open>\<open>Series.apply\<close> with a function that draws: one draw for each element, in order.\<close>

fun jitter_all :: "real list \<Rightarrow> rng \<Rightarrow> real list \<times> rng" where
  "jitter_all [] g = ([], g)"
| "jitter_all (x # xs) g =
     (let (u, g') = uniform g;
          (ys, g'') = jitter_all xs g'
      in (jitter x u # ys, g''))"

text \<open>
  \<open>fit\<close> returns its outcome, the object as the call leaves it, and the generator.
  Line 73 raises \<open>KeyError\<close> after \<open>_reset\<close> and before any other assignment;
  line 81 raises \<open>OverflowError\<close> after the two global shares are assigned and before
  any draw.
\<close>

definition fit ::
  "('k::linorder) categorical_transformer \<Rightarrow> 'k listing list \<Rightarrow> rng \<Rightarrow>
     (error + unit) \<times> 'k categorical_transformer \<times> rng" where
  "fit self0 X g =
     (let self = reset self0 in
      case grouped_table X of
        Inl e \<Rightarrow> (Inl e, self, g)
      | Inr tmp \<Rightarrow>
          (let gh = glob_share high tmp;
               gm = glob_share medium tmp;
               self1 = self\<lparr>glob_high := Some gh, glob_med := Some gm\<rparr>
           in case apply_all (\<lambda>r. lambda (threshold self) (record_count r)) tmp of
                Inl e \<Rightarrow> (Inl e, self1, g)
              | Inr lams \<Rightarrow>
                  (let (wh, g1) = jitter_all
                         (map (\<lambda>(r, l). blend l (high_share r) gh) (zip tmp lams)) g;
                       (wm, g2) = jitter_all
                         (map (\<lambda>(r, l). blend l (med_share r) gm) (zip tmp lams)) g1
                   in (Inr (),
                       self1\<lparr>mapping := Some (Frame
                          \<lparr>columns = [''w_high_'' @ column_name self,
                                      ''w_med_'' @ column_name self,
                                      column_name self],
                           rows = map (\<lambda>(r, h, m). \<lparr>w_high = h, w_med = m, mkey = gkey r\<rparr>)
                                    (zip tmp (zip wh wm))\<rparr>)\<rparr>,
                       g2))))"

subsection \<open>transform\<close>

text \<open>
  A row of the frame after the left merge on the encoded column (lines 104-108): the row
  of \<open>X\<close> and the two statistics of the mapping row with the same category, missing
  when there is none. The merge keeps the order of \<open>X\<close> and gives one row for each
  matching row of the mapping. The other columns of \<open>X\<close> are carried along
  unchanged and are assumed not to be named \<open>index\<close>, \<open>w_high_...\<close> or
  \<open>w_med_...\<close>.
\<close>

record 'k merged =
  left_row :: "'k listing"
  m_high :: "real option"
  m_med :: "real option"

record 'k encoded =
  source_row :: "'k listing"
  enc_high :: real
  enc_med :: real

definition merge_left :: "'k listing list \<Rightarrow> 'k mapping_row list \<Rightarrow> 'k merged list" where
  "merge_left X M =
     concat (map (\<lambda>x.
       case filter (\<lambda>m. category x = Some (mkey m)) M of
         [] \<Rightarrow> [\<lparr>left_row = x, m_high = None, m_med = None\<rparr>]
       | ms \<Rightarrow> map (\<lambda>m. \<lparr>left_row = x, m_high = Some (w_high m),
                               m_med = Some (w_med m)\<rparr>) ms) X)"

text \<open>
  \<open>lambda x: x if not np.isnan(x) else self.glob_high\<close>: the attribute is read only
  for a missing cell.
\<close>

definition fill :: "string \<Rightarrow> real option \<Rightarrow> real option \<Rightarrow> error + real" where
  "fill attr glob v =
     (case v of
        Some x \<Rightarrow> Inr x
      | None \<Rightarrow> (case glob of Some y \<Rightarrow> Inr y | None \<Rightarrow> Inl (AttributeError attr)))"

text \<open>
  \<open>transform\<close> returns its outcome and the object as the call leaves it. The rows of
  the mapping are read under the labels built from \<open>column_name\<close>; a mapping frame
  without them raises \<open>KeyError\<close>, and the dict left by \<open>_reset\<close> has no
  \<open>reset_index\<close>.
\<close>

definition transform ::
  "'k categorical_transformer \<Rightarrow> 'k listing list \<Rightarrow>
     (error + 'k encoded list) \<times> 'k categorical_transformer" where
  "transform self X =
     (case mapping self of
        None \<Rightarrow> (Inl (AttributeError ''mapping_''), self)
      | Some Dict \<Rightarrow> (Inl (AttributeError ''reset_index''), self)
      | Some (Frame M) \<Rightarrow>
          if columns M \<noteq> [''w_high_'' @ column_name self, ''w_med_'' @ column_name self,
                            column_name self]
          then (Inl (KeyError (column_name self)), self)
          else
            (let Xm = merge_left X (rows M) in
             case apply_all (fill ''glob_high'' (glob_high self)) (map m_high Xm) of
               Inl e \<Rightarrow> (Inl e, self)
             | Inr hs \<Rightarrow>
                 (case apply_all (fill ''glob_med'' (glob_med self)) (map m_med Xm) of
                    Inl e \<Rightarrow> (Inl e, self)
                  | Inr ms \<Rightarrow>
                      (Inr (map (\<lambda>(r, h, m). \<lparr>source_row = left_row r, enc_high = h,
                                                enc_med = m\<rparr>) (zip Xm (zip hs ms))),
                       self))))"

subsection \<open>Descriptions used in the statements\<close>

text \<open>The weight line 81 gives a category of frequency \<open>x\<close> when it returns.\<close>

definition weight :: "real \<Rightarrow> real \<Rightarrow> real" where
  "weight k x = fl (1 / fl (1 + fl (exp (fl (k - x)))))"

text \<open>Lines 80-91: the blend of one row, before the jitter.\<close>

definition smoothed :: "real \<Rightarrow> ('k grouped \<Rightarrow> real) \<Rightarrow> real \<Rightarrow> 'k grouped \<Rightarrow> real" where
  "smoothed k share glob r = blend (weight k (record_count r)) (share r) glob"

text \<open>
  The rows \<open>fit\<close> stores for a grouped table: row \<open>i\<close> gets draw \<open>i\<close> for its
  high statistic and draw \<open>length tmp + i\<close> for its medium statistic.
\<close>

definition fitted_rows :: "real \<Rightarrow> 'k grouped list \<Rightarrow> rng \<Rightarrow> 'k mapping_row list" where
  "fitted_rows k tmp g =
     map (\<lambda>i. \<lparr>w_high = jitter (smoothed k high_share (glob_share high tmp) (tmp ! i)) (g i),
                w_med = jitter (smoothed k med_share (glob_share medium tmp) (tmp ! i))
                          (g (length tmp + i)),
                mkey = gkey (tmp ! i)\<rparr>) [0..<length tmp]"

text \<open>A small training frame: two rows are dropped by \<open>groupby\<close>.\<close>

definition train0 :: "nat listing list" where
  "train0 = [\<lparr>category = Some 2, interest_level = Some Low\<rparr>,
             \<lparr>category = Some 1, interest_level = Some High\<rparr>,
             \<lparr>category = None, interest_level = Some High\<rparr>,
             \<lparr>category = Some 1, interest_level = Some Medium\<rparr>,
             \<lparr>category = Some 3, interest_level = None\<rparr>]"

text \<open>A frame whose two categories both have two rows.\<close>

definition train1 :: "nat listing list" where
  "train1 = [\<lparr>category = Some 1, interest_level = Some High\<rparr>,
             \<lparr>category = Some 1, interest_level = Some Medium\<rparr>,
             \<lparr>category = Some 2, interest_level = Some High\<rparr>,
             \<lparr>category = Some 2, interest_level = Some Low\<rparr>]"

text \<open>
  The row of the mapping that the merge gives a category, and the row \<open>transform\<close>
  returns for a row of \<open>X\<close> when no two rows of the mapping share a category.
\<close>

definition matching :: "'k mapping_row list \<Rightarrow> 'k option \<Rightarrow> 'k mapping_row option" where
  "matching M c = find (\<lambda>m. c = Some (mkey m)) M"

definition encode_row :: "real \<Rightarrow> real \<Rightarrow> 'k mapping_row list \<Rightarrow> 'k listing \<Rightarrow> 'k encoded" where
  "encode_row gh gm M x =
     (case matching M (category x) of
        None \<Rightarrow> \<lparr>source_row = x, enc_high = gh, enc_med = gm\<rparr>
      | Some m \<Rightarrow> \<lparr>source_row = x, enc_high = w_high m, enc_med = w_med m\<rparr>)"

text \<open>No row of the grouped table makes \<open>math.exp\<close> overflow.\<close>

definition in_range :: "real \<Rightarrow> 'k grouped list \<Rightarrow> bool" where
  "in_range k tmp = list_all (\<lambda>r. fl (exp (fl (k - record_count r))) < 2 ^ 1024) tmp"

section \<open>Properties\<close>

subsection \<open>Rounding\<close>

lemma rne_of_int: "rne (of_int n) = n"
  by (simp add: rne_def)

lemma rne_lower: "y - 1 / 2 \<le> of_int (rne y)"
  unfolding rne_def Let_def by (auto; linarith)

lemma rne_upper: "of_int (rne y) \<le> y + 1 / 2"
  unfolding rne_def Let_def by (auto; linarith)

lemma rne_floor: "\<lfloor>y\<rfloor> \<le> rne y" and rne_floor1: "rne y \<le> \<lfloor>y\<rfloor> + 1"
  unfolding rne_def Let_def by auto

lemma rne_mono:
  assumes "x \<le> y"
  shows "rne x \<le> rne y"
proof (cases "\<lfloor>x\<rfloor> = \<lfloor>y\<rfloor>")
  case True
  with assms show ?thesis unfolding rne_def Let_def by auto
next
  case False
  with assms have "\<lfloor>x\<rfloor> < \<lfloor>y\<rfloor>" using floor_mono [OF assms] by linarith
  then have "rne x \<le> \<lfloor>y\<rfloor>" using rne_floor1 [of x] by linarith
  then show ?thesis using rne_floor [of y] by linarith
qed


lemma powr_powi: "(2::real) powr real_of_int k = 2 powi k"
  by (simp add: powr_real_of_int')

lemma floor_log2_bounds:
  assumes "x \<noteq> 0"
  shows "2 powi \<lfloor>log 2 \<bar>x\<bar>\<rfloor> \<le> \<bar>x\<bar>" and "\<bar>x\<bar> < 2 powi (\<lfloor>log 2 \<bar>x\<bar>\<rfloor> + 1)"
proof -
  have "0 < \<bar>x\<bar>" using assms by simp
  then have "2 powr real_of_int \<lfloor>log 2 \<bar>x\<bar>\<rfloor> \<le> \<bar>x\<bar>
      \<and> \<bar>x\<bar> < 2 powr real_of_int (\<lfloor>log 2 \<bar>x\<bar>\<rfloor> + 1)"
    using floor_log_eq_powr_iff [of "\<bar>x\<bar>" 2 "\<lfloor>log 2 \<bar>x\<bar>\<rfloor>"] by fastforce
  then show "2 powi \<lfloor>log 2 \<bar>x\<bar>\<rfloor> \<le> \<bar>x\<bar>" and "\<bar>x\<bar> < 2 powi (\<lfloor>log 2 \<bar>x\<bar>\<rfloor> + 1)"
    unfolding powr_powi by blast+
qed

lemma floor_log2_eq:
  assumes "2 powi e \<le> \<bar>x\<bar>" and "\<bar>x\<bar> < 2 powi (e + 1)"
  shows "\<lfloor>log 2 \<bar>x\<bar>\<rfloor> = e"
proof -
  have "(0::real) < 2 powi e" by simp
  with assms(1) have "0 < \<bar>x\<bar>" by linarith
  then have "(\<lfloor>log 2 \<bar>x\<bar>\<rfloor> = e)
      = (2 powr real_of_int e \<le> \<bar>x\<bar> \<and> \<bar>x\<bar> < 2 powr real_of_int (e + 1))"
    by (intro floor_log_eq_powr_iff) simp_all
  then show ?thesis unfolding powr_powi using assms by blast
qed

lemma ulp_exp_ge: "- 1074 \<le> ulp_exp x"
  by (simp add: ulp_exp_def)

lemma ulp_exp_minus: "ulp_exp (- x) = ulp_exp x"
  by (simp add: ulp_exp_def)

lemma below_binade:
  assumes "x \<noteq> 0"
  shows "\<bar>x\<bar> < 2 powi (ulp_exp x + 53)"
proof -
  have "\<lfloor>log 2 \<bar>x\<bar>\<rfloor> + 1 \<le> ulp_exp x + 53" by (simp add: ulp_exp_def)
  then have "(2::real) powi (\<lfloor>log 2 \<bar>x\<bar>\<rfloor> + 1) \<le> 2 powi (ulp_exp x + 53)"
    by (intro power_int_increasing) simp_all
  with floor_log2_bounds(2) [OF assms] show ?thesis by linarith
qed

lemma normal_binade:
  assumes "x \<noteq> 0" and "- 1074 < ulp_exp x"
  shows "2 powi (ulp_exp x + 52) \<le> \<bar>x\<bar>"
proof -
  from assms(2) have "ulp_exp x + 52 = \<lfloor>log 2 \<bar>x\<bar>\<rfloor>"
    by (simp add: ulp_exp_def max_def split: if_splits)
  with floor_log2_bounds(1) [OF assms(1)] show ?thesis by simp
qed

lemma ulp_exp_mono:
  assumes "x \<noteq> 0" and "\<bar>x\<bar> \<le> \<bar>y\<bar>"
  shows "ulp_exp x \<le> ulp_exp y"
proof -
  have "0 < \<bar>x\<bar>" using assms(1) by simp
  then have "log 2 \<bar>x\<bar> \<le> log 2 \<bar>y\<bar>" using assms(2) by simp
  then have "\<lfloor>log 2 \<bar>x\<bar>\<rfloor> \<le> \<lfloor>log 2 \<bar>y\<bar>\<rfloor>" by (rule floor_mono)
  then show ?thesis by (simp add: ulp_exp_def)
qed

lemma ulp_exp_normal:
  assumes "2 powi (q + 52) \<le> \<bar>x\<bar>" and "\<bar>x\<bar> < 2 powi (q + 53)" and "- 1074 \<le> q"
  shows "ulp_exp x = q"
proof -
  have "q + 52 + 1 = q + 53" by simp
  with assms(1,2) have "\<lfloor>log 2 \<bar>x\<bar>\<rfloor> = q + 52"
    using floor_log2_eq [of "q + 52" x] by metis
  with assms(3) show ?thesis by (simp add: ulp_exp_def)
qed

lemma fl_zero: "fl 0 = 0"
  by (simp add: fl_def)

lemma fl_minus: "fl (- x) = - fl x"
  by (simp add: fl_def ulp_exp_minus)

lemma fl_pos_eq:
  "0 < x \<Longrightarrow> fl x = of_int (rne (x / 2 powi ulp_exp x)) * 2 powi ulp_exp x"
  by (simp add: fl_def)

lemma rne_nonneg: "0 \<le> y \<Longrightarrow> 0 \<le> rne y"
  using rne_mono [of 0 y] rne_of_int [of 0] by simp

lemma fl_nonneg:
  assumes "0 \<le> x"
  shows "0 \<le> fl x"
proof (cases "x = 0")
  case True
  then show ?thesis by (simp add: fl_zero)
next
  case False
  with assms have "0 < x" by simp
  then show ?thesis by (simp add: fl_pos_eq rne_nonneg)
qed

lemma fl_mono_pos:
  assumes "0 < x" and "x \<le> y"
  shows "fl x \<le> fl y"
proof -
  have y: "0 < y" using assms by linarith
  have le: "ulp_exp x \<le> ulp_exp y" using assms by (intro ulp_exp_mono) simp_all
  show ?thesis
  proof (cases "ulp_exp x = ulp_exp y")
    case True
    have "x / 2 powi ulp_exp y \<le> y / 2 powi ulp_exp y"
      using assms(2) by (simp add: divide_right_mono)
    then have "rne (x / 2 powi ulp_exp y) \<le> rne (y / 2 powi ulp_exp y)" by (rule rne_mono)
    then have "(of_int (rne (x / 2 powi ulp_exp y)) :: real) \<le> of_int (rne (y / 2 powi ulp_exp y))"
      by simp
    then show ?thesis
      using assms(1) y True by (simp add: fl_pos_eq mult_right_mono)
  next
    case False
    with le have lt: "ulp_exp x < ulp_exp y" by simp
    have "x < 2 powi (ulp_exp x + 53)" using below_binade [of x] assms(1) by simp
    then have "x / 2 powi ulp_exp x < 2 ^ 53"
      by (simp add: power_int_add divide_simps mult.commute)
    then have "rne (x / 2 powi ulp_exp x) \<le> rne (of_int (2 ^ 53))"
      by (intro rne_mono) simp
    then have "rne (x / 2 powi ulp_exp x) \<le> 2 ^ 53" by (simp only: rne_of_int)
    then have "(of_int (rne (x / 2 powi ulp_exp x)) :: real) \<le> 2 ^ 53"
      by (metis of_int_le_iff of_int_numeral of_int_power)
    then have "fl x \<le> 2 ^ 53 * 2 powi ulp_exp x"
      using assms(1) by (simp add: fl_pos_eq mult_right_mono)
    also have "\<dots> = 2 powi (ulp_exp x + 53)" by (simp add: power_int_add)
    also have "\<dots> \<le> 2 powi (ulp_exp y + 52)"
      using lt by (intro power_int_increasing) simp_all
    finally have a: "fl x \<le> 2 powi (ulp_exp y + 52)" .
    have "- 1074 < ulp_exp y" using lt ulp_exp_ge [of x] by linarith
    then have "2 powi (ulp_exp y + 52) \<le> y" using normal_binade [of y] y by simp
    then have "2 ^ 52 \<le> y / 2 powi ulp_exp y"
      by (simp add: power_int_add divide_simps mult.commute)
    then have "rne (of_int (2 ^ 52)) \<le> rne (y / 2 powi ulp_exp y)"
      by (intro rne_mono) simp
    then have "2 ^ 52 \<le> rne (y / 2 powi ulp_exp y)" by (simp only: rne_of_int)
    then have "(2 ^ 52 :: real) \<le> of_int (rne (y / 2 powi ulp_exp y))"
      by (metis of_int_le_iff of_int_numeral of_int_power)
    then have "2 ^ 52 * 2 powi ulp_exp y \<le> fl y"
      using y by (simp add: fl_pos_eq mult_right_mono)
    moreover have "(2::real) ^ 52 * 2 powi ulp_exp y = 2 powi (ulp_exp y + 52)"
      by (simp add: power_int_add)
    ultimately show ?thesis using a by linarith
  qed
qed

lemma fl_mono:
  assumes "x \<le> y"
  shows "fl x \<le> fl y"
proof -
  consider "0 < x" | "x \<le> 0" "0 \<le> y" | "y < 0" by linarith
  then show ?thesis
  proof cases
    case 1
    then show ?thesis using assms by (rule fl_mono_pos)
  next
    case 2
    have "0 \<le> fl (- x)" using 2(1) by (intro fl_nonneg) simp
    then have "fl x \<le> 0" by (simp add: fl_minus)
    moreover have "0 \<le> fl y" using 2(2) by (rule fl_nonneg)
    ultimately show ?thesis by linarith
  next
    case 3
    have "fl (- y) \<le> fl (- x)" using 3 assms by (intro fl_mono_pos) simp_all
    then show ?thesis by (simp add: fl_minus)
  qed
qed


lemma fl_normal:
  assumes "2 powi (q + 52) \<le> \<bar>x\<bar>" and "\<bar>x\<bar> < 2 powi (q + 53)" and "- 1074 \<le> q"
  shows "fl x = sgn x * (of_int (rne (\<bar>x\<bar> / 2 powi q)) * 2 powi q)"
proof -
  have "ulp_exp x = q" using assms by (rule ulp_exp_normal)
  moreover have "x \<noteq> 0"
  proof
    assume "x = 0"
    with assms(1) have "(2::real) powi (q + 52) \<le> 0" by simp
    moreover have "(0::real) < 2 powi (q + 52)" by simp
    ultimately show False by linarith
  qed
  ultimately show ?thesis by (simp add: fl_def)
qed

lemma fl_repr_pos:
  assumes "0 < m" and "m < 2 ^ 53" and "- 1074 \<le> q"
  shows "fl (of_int m * 2 powi q) = of_int m * 2 powi q"
proof -
  let ?x = "of_int m * 2 powi q :: real"
  have pos: "0 < ?x" using assms(1) by simp
  have "of_int m < (2 ^ 53 :: real)"
    using assms(2) by (metis of_int_less_iff of_int_numeral of_int_power)
  then have "?x < 2 ^ 53 * 2 powi q" by simp
  also have "\<dots> = 2 powi (q + 53)" by (simp add: power_int_add)
  finally have up: "\<bar>?x\<bar> < 2 powi (q + 53)" using pos by simp
  have "\<lfloor>log 2 \<bar>?x\<bar>\<rfloor> < q + 53"
  proof (rule ccontr)
    assume "\<not> \<lfloor>log 2 \<bar>?x\<bar>\<rfloor> < q + 53"
    then have "(2::real) powi (q + 53) \<le> 2 powi \<lfloor>log 2 \<bar>?x\<bar>\<rfloor>"
      by (intro power_int_increasing) simp_all
    moreover have "2 powi \<lfloor>log 2 \<bar>?x\<bar>\<rfloor> \<le> \<bar>?x\<bar>"
      using pos by (intro floor_log2_bounds(1)) auto
    ultimately show False using up by linarith
  qed
  with assms(3) have le: "ulp_exp ?x \<le> q" by (simp add: ulp_exp_def)
  define e where "e = ulp_exp ?x"
  define d where "d = nat (q - e)"
  have q: "q = e + int d" using le by (simp add: d_def e_def)
  have pq: "(2::real) powi q = 2 powi e * 2 ^ d"
    by (subst q) (simp add: power_int_add)
  have "of_int m * (2 powi e * 2 ^ d) / 2 powi e = (of_int (m * 2 ^ d) :: real)" by simp
  then have "?x / 2 powi e = of_int (m * 2 ^ d)" by (simp only: pq)
  then have "rne (?x / 2 powi e) = m * 2 ^ d" by (simp only: rne_of_int)
  then have "fl ?x = of_int (m * 2 ^ d) * 2 powi e"
    using pos unfolding e_def by (simp only: fl_pos_eq)
  also have "\<dots> = of_int m * (2 powi e * 2 ^ d)" by simp
  also have "\<dots> = ?x" by (simp only: pq)
  finally show ?thesis .
qed

lemma fl_repr:
  assumes "\<bar>m\<bar> < 2 ^ 53" and "- 1074 \<le> q"
  shows "fl (of_int m * 2 powi q) = of_int m * 2 powi q"
proof -
  consider "m = 0" | "0 < m" | "m < 0" by linarith
  then show ?thesis
  proof cases
    case 1
    then show ?thesis by (simp add: fl_zero)
  next
    case 2
    with assms show ?thesis by (intro fl_repr_pos) simp_all
  next
    case 3
    with assms have "fl (of_int (- m) * 2 powi q) = of_int (- m) * 2 powi q"
      by (intro fl_repr_pos) simp_all
    then have "fl (- (of_int m * 2 powi q)) = - (of_int m * 2 powi q)" by simp
    then show ?thesis by (simp only: fl_minus neg_equal_iff_equal)
  qed
qed

lemma fl_of_int:
  assumes "\<bar>m\<bar> < 2 ^ 53"
  shows "fl (of_int m) = of_int m"
  using fl_repr [OF assms, of 0] by simp

lemma fl_one: "fl 1 = 1"
  using fl_of_int [of 1] by simp

lemma fl_power2:
  assumes "- 1074 \<le> q"
  shows "fl (2 powi q) = 2 powi q"
  using fl_repr [of 1 q] assms by simp

lemma fl_double_pos:
  assumes "0 < x"
  shows "\<exists>m q. \<bar>m\<bar> < 2 ^ 53 \<and> - 1074 \<le> q \<and> fl x = of_int m * 2 powi q"
proof -
  let ?n = "rne (x / 2 powi ulp_exp x)"
  have "x < 2 powi (ulp_exp x + 53)" using below_binade [of x] assms by simp
  then have "x / 2 powi ulp_exp x < 2 ^ 53"
    by (simp add: power_int_add divide_simps mult.commute)
  then have "?n \<le> rne (of_int (2 ^ 53))" by (intro rne_mono) simp
  then have le: "?n \<le> 2 ^ 53" by (simp only: rne_of_int)
  have "0 \<le> x / 2 powi ulp_exp x" using assms by simp
  then have ge: "0 \<le> ?n" by (rule rne_nonneg)
  show ?thesis
  proof (cases "?n = 2 ^ 53")
    case True
    have "fl x = of_int (2 ^ 53) * 2 powi ulp_exp x"
      using assms True by (simp only: fl_pos_eq)
    also have "\<dots> = of_int (2 ^ 52) * 2 powi (ulp_exp x + 1)"
      by (simp add: power_int_add)
    finally have "fl x = of_int (2 ^ 52) * 2 powi (ulp_exp x + 1)" .
    moreover have "\<bar>2 ^ 52 :: int\<bar> < 2 ^ 53" by simp
    moreover have "- 1074 \<le> ulp_exp x + 1" using ulp_exp_ge [of x] by linarith
    ultimately show ?thesis by blast
  next
    case False
    with le ge have "\<bar>?n\<bar> < 2 ^ 53" by linarith
    moreover have "fl x = of_int ?n * 2 powi ulp_exp x" using assms by (simp only: fl_pos_eq)
    ultimately show ?thesis using ulp_exp_ge [of x] by blast
  qed
qed

lemma fl_idem: "fl (fl x) = fl x"
proof -
  consider "x = 0" | "0 < x" | "x < 0" by linarith
  then show ?thesis
  proof cases
    case 1
    then show ?thesis by (simp add: fl_zero)
  next
    case 2
    then obtain m q where "\<bar>m\<bar> < 2 ^ 53" "- 1074 \<le> q" "fl x = of_int m * 2 powi q"
      using fl_double_pos by blast
    then show ?thesis by (simp add: fl_repr)
  next
    case 3
    then have "0 < - x" by simp
    then obtain m q where "\<bar>m\<bar> < 2 ^ 53" "- 1074 \<le> q" "fl (- x) = of_int m * 2 powi q"
      using fl_double_pos by blast
    then have "fl (fl (- x)) = fl (- x)" by (simp add: fl_repr)
    then show ?thesis by (simp add: fl_minus)
  qed
qed

lemma fl_error:
  "\<bar>fl x - x\<bar> \<le> 2 powi ulp_exp x / 2"
proof -
  have pos: "\<bar>fl x - x\<bar> \<le> 2 powi ulp_exp x / 2" if "0 < x" for x
  proof -
    let ?u = "(2::real) powi ulp_exp x"
    have u: "0 < ?u" by simp
    have "\<bar>of_int (rne (x / ?u)) - x / ?u\<bar> \<le> 1 / 2"
      using rne_lower [of "x / ?u"] rne_upper [of "x / ?u"] by linarith
    then have "\<bar>of_int (rne (x / ?u)) - x / ?u\<bar> * ?u \<le> 1 / 2 * ?u"
      using u by (intro mult_right_mono) simp_all
    moreover have "\<bar>of_int (rne (x / ?u)) - x / ?u\<bar> * ?u = \<bar>of_int (rne (x / ?u)) * ?u - x\<bar>"
    proof -
      have "\<bar>of_int (rne (x / ?u)) - x / ?u\<bar> * ?u
          = \<bar>(of_int (rne (x / ?u)) - x / ?u) * ?u\<bar>"
        using u by (simp add: abs_mult)
      also have "(of_int (rne (x / ?u)) - x / ?u) * ?u = of_int (rne (x / ?u)) * ?u - x"
        using u by (simp add: left_diff_distrib)
      finally show ?thesis .
    qed
    ultimately show ?thesis using that by (simp add: fl_pos_eq)
  qed
  consider "x = 0" | "0 < x" | "x < 0" by linarith
  then show ?thesis
  proof cases
    case 1
    then show ?thesis by (simp add: fl_zero)
  next
    case 2
    then show ?thesis by (rule pos)
  next
    case 3
    then have "\<bar>fl (- x) - (- x)\<bar> \<le> 2 powi ulp_exp (- x) / 2" by (intro pos) simp
    then show ?thesis by (simp add: fl_minus ulp_exp_minus abs_minus_commute)
  qed
qed

subsection \<open>The exponential and the weight\<close>

lemma exp_one_ge: "(27 / 10 :: real) \<le> exp 1"
proof -
  have "(1 + 1 / real 100) ^ 100 \<le> exp (1::real)"
    by (rule exp_ge_one_plus_x_over_n_power_n) simp_all
  moreover have "(27 / 10 :: real) \<le> (1 + 1 / real 100) ^ 100"
    by (simp add: power_divide)
  ultimately show ?thesis by linarith
qed

lemma exp_minus_37: "exp (- 37 :: real) \<le> 2 powi (- 53)"
proof -
  have "(2::real) ^ 53 \<le> (27 / 10) ^ 37" by (simp add: power_divide)
  also have "\<dots> \<le> exp 1 ^ 37" using exp_one_ge by (intro power_mono) simp_all
  also have "\<dots> = exp (37::real)" by (simp flip: exp_of_nat_mult)
  finally have "(2::real) ^ 53 \<le> exp 37" .
  then have "inverse (exp (37::real)) \<le> inverse (2 ^ 53)"
    by (intro le_imp_inverse_le) simp_all
  then show ?thesis by (simp add: exp_minus power_int_minus)
qed

lemma exp_le_600:
  assumes "x \<le> (600::real)"
  shows "exp x \<le> 2 ^ 1023"
proof -
  have "exp x \<le> exp 600" using assms by simp
  also have "\<dots> = exp 1 ^ 600" by (simp flip: exp_of_nat_mult)
  also have "\<dots> \<le> 3 ^ 600" using exp_le by (intro power_mono) simp_all
  also have "\<dots> \<le> (2::real) ^ 1023" by simp
  finally show ?thesis .
qed

lemma fl_pow: "fl (2 ^ n) = 2 ^ n"
  using fl_power2 [of "int n"] by simp

lemma math_exp_ok:
  assumes "x \<le> 600"
  shows "math_exp x = Inr (fl (exp x))"
proof -
  have "fl (exp x) \<le> fl (2 ^ 1023)" using exp_le_600 [OF assms] by (rule fl_mono)
  then have "fl (exp x) \<le> 2 ^ 1023" by (simp only: fl_pow)
  moreover have "(2::real) ^ 1023 < 2 ^ 1024" by simp
  ultimately show ?thesis by (simp add: math_exp_def)
qed

lemma fl_one_plus_tiny:
  assumes "0 \<le> e" and "e \<le> 2 powi (- 53)"
  shows "fl (1 + e) = 1"
proof -
  have "fl (1 + 2 powi (- 53)) = 1"
    by (subst fl_normal [where q = "- 52"]) (simp_all add: rne_def)
  moreover have "fl (1 + e) \<le> fl (1 + 2 powi (- 53))" using assms(2) by (intro fl_mono) simp
  moreover have "fl 1 \<le> fl (1 + e)" using assms(1) by (intro fl_mono) simp
  ultimately show ?thesis by (simp add: fl_one)
qed

lemma lambda_eq:
  "lambda k x =
     (if 2 ^ 1024 \<le> fl (exp (fl (k - x))) then Inl (OverflowError ''math range error'')
      else Inr (weight k x))"
  by (simp add: lambda_def math_exp_def weight_def)

lemma lambda_saturated:
  assumes "37 \<le> x - k"
  shows "lambda k x = Inr 1"
proof -
  have "fl (k - x) \<le> fl (- 37)" using assms by (intro fl_mono) simp
  moreover have "fl (- 37) = - 37" using fl_of_int [of "- 37"] by simp
  ultimately have d: "fl (k - x) \<le> - 37" by simp
  then have "exp (fl (k - x)) \<le> exp (- 37)" by simp
  with exp_minus_37 have e: "exp (fl (k - x)) \<le> 2 powi (- 53)" by linarith
  then have "fl (exp (fl (k - x))) \<le> fl (2 powi (- 53))" by (rule fl_mono)
  moreover have "fl (2 powi (- 53)) = 2 powi (- 53)" by (rule fl_power2) simp
  ultimately have le: "fl (exp (fl (k - x))) \<le> 2 powi (- 53)" by (simp only:)
  have ge: "0 \<le> fl (exp (fl (k - x)))" by (intro fl_nonneg) simp
  have "fl (1 + fl (exp (fl (k - x)))) = 1" using ge le by (rule fl_one_plus_tiny)
  then have w: "weight k x = 1" by (simp add: weight_def fl_one)
  have "(2::real) powi (- 53) < 2 ^ 1024" by (simp add: power_int_minus)
  with le have "\<not> 2 ^ 1024 \<le> fl (exp (fl (k - x)))" by linarith
  with w show ?thesis by (simp add: lambda_eq)
qed

lemma lambda_at_threshold:
  assumes "x = k"
  shows "lambda k x = Inr (1 / 2)"
proof -
  have "fl (1 / 2) = 1 / 2" using fl_power2 [of "- 1"] by (simp add: power_int_minus)
  moreover have "fl 2 = 2" using fl_of_int [of 2] by simp
  ultimately show ?thesis using assms by (simp add: lambda_eq weight_def fl_zero fl_one)
qed

lemma lambda_bounds:
  assumes "lambda k x = Inr l"
  shows "0 < l" and "l \<le> 1"
proof -
  let ?e = "fl (exp (fl (k - x)))"
  from assms have e: "?e < 2 ^ 1024" and l: "l = fl (1 / fl (1 + ?e))"
    by (simp_all add: lambda_eq weight_def split: if_splits)
  have ge: "0 \<le> ?e" by (intro fl_nonneg) simp
  have "fl 1 \<le> fl (1 + ?e)" using ge by (intro fl_mono) simp
  then have s1: "1 \<le> fl (1 + ?e)" by (simp add: fl_one)
  have "1 + ?e \<le> 2 ^ 1025" using e by simp
  then have "fl (1 + ?e) \<le> fl (2 ^ 1025)" by (rule fl_mono)
  then have s2: "fl (1 + ?e) \<le> 2 ^ 1025" by (simp only: fl_pow)
  have "1 / fl (1 + ?e) \<le> 1" using s1 by simp
  then have "fl (1 / fl (1 + ?e)) \<le> fl 1" by (rule fl_mono)
  then show "l \<le> 1" by (simp add: l fl_one)
  have "1 / (2 ^ 1025 :: real) \<le> 1 / fl (1 + ?e)"
    using s1 s2 by (intro divide_left_mono) simp_all
  then have "(2::real) powi (- 1025) \<le> 1 / fl (1 + ?e)"
    by (simp add: power_int_minus divide_simps)
  then have "fl (2 powi (- 1025)) \<le> fl (1 / fl (1 + ?e))" by (rule fl_mono)
  moreover have "fl (2 powi (- 1025)) = 2 powi (- 1025)" by (rule fl_power2) simp
  ultimately have "2 powi (- 1025) \<le> l" by (simp only: l)
  moreover have "(0::real) < 2 powi (- 1025)" by simp
  ultimately show "0 < l" by linarith
qed

lemma lambda_mono:
  assumes "x \<le> y" and "lambda k x = Inr a"
  shows "\<exists>b. lambda k y = Inr b \<and> a \<le> b"
proof -
  let ?e = "\<lambda>z. fl (exp (fl (k - z)))"
  from assms(2) have e: "?e x < 2 ^ 1024" and a: "a = fl (1 / fl (1 + ?e x))"
    by (simp_all add: lambda_eq weight_def split: if_splits)
  have "fl (k - y) \<le> fl (k - x)" using assms(1) by (intro fl_mono) simp
  then have "exp (fl (k - y)) \<le> exp (fl (k - x))" by simp
  then have le: "?e y \<le> ?e x" by (rule fl_mono)
  with e have ok: "\<not> 2 ^ 1024 \<le> ?e y" by linarith
  have "0 \<le> ?e y" by (intro fl_nonneg) simp
  then have "fl 1 \<le> fl (1 + ?e y)" by (intro fl_mono) simp
  then have s1: "1 \<le> fl (1 + ?e y)" by (simp add: fl_one)
  have s: "fl (1 + ?e y) \<le> fl (1 + ?e x)" using le by (intro fl_mono) simp
  have "1 / fl (1 + ?e x) \<le> 1 / fl (1 + ?e y)"
    using s s1 by (intro divide_left_mono) simp_all
  then have "fl (1 / fl (1 + ?e x)) \<le> fl (1 / fl (1 + ?e y))" by (rule fl_mono)
  with ok a show ?thesis by (simp add: lambda_eq weight_def)
qed


subsection \<open>What fit computes\<close>

lemma jitter_all_eq:
  "jitter_all xs g = (map (\<lambda>i. jitter (xs ! i) (g i)) [0..<length xs], \<lambda>i. g (i + length xs))"
proof (induction xs arbitrary: g)
  case Nil show ?case by simp
next
  case (Cons x xs)
  show ?case using Cons.IH [of "\<lambda>i. g (Suc i)"]
    by (simp add: uniform_def map_upt_Suc del: upt_Suc)
qed

lemma threshold_reset: "threshold (reset self) = threshold self"
  and column_name_reset: "column_name (reset self) = column_name self"
  by (simp_all add: reset_def)

lemma zip_rows:
  "map (\<lambda>(r, h, m). \<lparr>w_high = h, w_med = m, mkey = gkey r\<rparr>)
     (zip tmp (zip (map f [0..<length tmp]) (map f' [0..<length tmp])))
   = map (\<lambda>i. \<lparr>w_high = f i, w_med = f' i, mkey = gkey (tmp ! i)\<rparr>) [0..<length tmp]"
  by (rule nth_equalityI) simp_all

lemma apply_all_Inr:
  assumes "\<And>x. x \<in> set xs \<Longrightarrow> f x = Inr (h x)"
  shows "apply_all f xs = Inr (map h xs)"
  using assms by (induction xs) simp_all

lemma apply_all_Inl:
  assumes "x \<in> set xs" and "f x = Inl e" and "\<And>y e'. f y = Inl e' \<Longrightarrow> e' = e"
  shows "apply_all f xs = Inl e"
  using assms(1)
proof (induction xs)
  case Nil
  then show ?case by simp
next
  case (Cons a xs)
  show ?case
  proof (cases "f a")
    case (Inl e')
    with assms(3) show ?thesis by simp
  next
    case (Inr y)
    with Cons assms(2) have "x \<in> set xs" by auto
    then have "apply_all f xs = Inl e" by (rule Cons.IH)
    with Inr show ?thesis by simp
  qed
qed

lemma apply_all_returns:
  assumes "apply_all f xs = Inr ys" and "x \<in> set xs"
  shows "\<exists>y. f x = Inr y"
  using assms
  by (induction xs arbitrary: ys) (auto split: sum.splits)

lemma lambdas_in_range:
  assumes "in_range k tmp"
  shows "apply_all (\<lambda>r. lambda k (record_count r)) tmp
           = Inr (map (\<lambda>r. weight k (record_count r)) tmp)"
proof (rule apply_all_Inr)
  fix r assume "r \<in> set tmp"
  with assms have "fl (exp (fl (k - record_count r))) < 2 ^ 1024"
    by (simp add: in_range_def list_all_iff)
  then show "lambda k (record_count r) = Inr (weight k (record_count r))"
    by (simp add: lambda_eq)
qed

lemma lambdas_overflow:
  assumes "\<not> in_range k tmp"
  shows "apply_all (\<lambda>r. lambda k (record_count r)) tmp
           = Inl (OverflowError ''math range error'')"
proof -
  from assms obtain r where r: "r \<in> set tmp"
    and "\<not> fl (exp (fl (k - record_count r))) < 2 ^ 1024"
    by (auto simp: in_range_def list_all_iff)
  then have "lambda k (record_count r) = Inl (OverflowError ''math range error'')"
    by (simp add: lambda_eq)
  with r show ?thesis
    by (rule apply_all_Inl) (simp add: lambda_eq split: if_splits)
qed

lemma blend_rows:
  "map (\<lambda>(r, l). blend l (share r) glob) (zip tmp (map (\<lambda>r. weight k (record_count r)) tmp))
     = map (smoothed k share glob) tmp"
  by (induction tmp) (simp_all add: smoothed_def)

lemma fit_ok:
  assumes "grouped_table X = Inr tmp" and "in_range (threshold self0) tmp"
  shows "fit self0 X g =
     (Inr (),
      (reset self0)\<lparr>glob_high := Some (glob_share high tmp),
                    glob_med := Some (glob_share medium tmp),
                    mapping := Some (Frame
                      \<lparr>columns = [''w_high_'' @ column_name self0, ''w_med_'' @ column_name self0,
                                  column_name self0],
                       rows = fitted_rows (threshold self0) tmp g\<rparr>)\<rparr>,
      \<lambda>i. g (i + 2 * length tmp))"
  using assms(1) lambdas_in_range [OF assms(2)]
  by (simp add: fit_def Let_def blend_rows jitter_all_eq zip_rows fitted_rows_def threshold_reset
      column_name_reset add.commute add.left_commute add.assoc mult_2)

lemma fit_raises:
  "grouped_table X = Inl e \<Longrightarrow> fit self0 X g = (Inl e, reset self0, g)"
  by (simp add: fit_def Let_def)

lemma fit_overflow:
  assumes "grouped_table X = Inr tmp" and "\<not> in_range (threshold self0) tmp"
  shows "fit self0 X g =
     (Inl (OverflowError ''math range error''),
      (reset self0)\<lparr>glob_high := Some (glob_share high tmp),
                    glob_med := Some (glob_share medium tmp)\<rparr>, g)"
  using assms(1) lambdas_overflow [OF assms(2)]
  by (simp add: fit_def Let_def threshold_reset)

lemma fit_returns:
  assumes "fit self0 X g = (Inr (), self, g')"
  obtains tmp where "grouped_table X = Inr tmp" and "in_range (threshold self0) tmp"
proof (cases "grouped_table X")
  case (Inl e)
  with assms show ?thesis by (simp add: fit_raises)
next
  case (Inr tmp)
  show ?thesis
  proof (cases "in_range (threshold self0) tmp")
    case True
    with Inr show ?thesis by (rule that)
  next
    case False
    with assms Inr show ?thesis by (simp add: fit_overflow)
  qed
qed

subsection \<open>The grouped table\<close>

lemma group_size_nonneg: "0 \<le> group_size ps k l"
  by (simp add: group_size_def)

lemma group_size_pos: "(k, l) \<in> set ps \<Longrightarrow> 1 \<le> group_size ps k l"
proof -
  assume "(k, l) \<in> set ps"
  then have "filter (\<lambda>p. p = (k, l)) ps \<noteq> []"
    by (auto simp: filter_empty_conv)
  then have "0 < length (filter (\<lambda>p. p = (k, l)) ps)" by simp
  then show ?thesis by (simp add: group_size_def Suc_leI)
qed

lemma grouped_table_rows:
  assumes "grouped_table X = Inr tmp"
  shows "tmp = map (\<lambda>k. \<lparr>gkey = k, high = group_size (pairs X) k High,
                          medium = group_size (pairs X) k Medium,
                          low = group_size (pairs X) k Low\<rparr>) (group_keys (pairs X))"
  using assms by (simp add: grouped_table_def Let_def split: if_splits)

lemma grouped_table_labels:
  assumes "grouped_table X = Inr tmp"
  shows "High \<in> snd ` set (pairs X)"
  using assms by (simp add: grouped_table_def Let_def split: if_splits)

lemma set_group_keys: "set (group_keys ps) = fst ` set ps"
  by (simp add: group_keys_def)

lemma distinct_group_keys: "distinct (group_keys ps)"
  by (simp add: group_keys_def)

lemma record_count_ge_1:
  assumes "grouped_table X = Inr tmp" and "r \<in> set tmp"
  shows "1 \<le> record_count r"
proof -
  from assms obtain k where k: "k \<in> fst ` set (pairs X)"
    and r: "r = \<lparr>gkey = k, high = group_size (pairs X) k High,
                   medium = group_size (pairs X) k Medium,
                   low = group_size (pairs X) k Low\<rparr>"
    using grouped_table_rows [OF assms(1)] assms(2) set_group_keys [of "pairs X"]
    by auto
  from k obtain l where l: "(k, l) \<in> set (pairs X)" by auto
  have "1 \<le> group_size (pairs X) k l" using l by (rule group_size_pos)
  moreover have "group_size (pairs X) k l \<le> record_count r"
    using group_size_nonneg [of "pairs X" k High] group_size_nonneg [of "pairs X" k Medium]
      group_size_nonneg [of "pairs X" k Low]
    by (cases l) (simp_all add: r record_count_def)
  ultimately show ?thesis by linarith
qed

lemma pairs_train0: "pairs train0 = [(2, Low), (1, High), (1, Medium)]"
  by (simp add: pairs_def train0_def List.map_filter_simps)

lemma grouped_train0:
  "grouped_table train0 =
     Inr [\<lparr>gkey = 1, high = 1, medium = 1, low = 0\<rparr>,
          \<lparr>gkey = 2, high = 0, medium = 0, low = 1\<rparr>]"
  by (simp add: grouped_table_def pairs_train0 group_keys_def group_size_def)

text \<open>
  Claim C8. In \<open>fit\<close>, every row of the grouped table has
  \<open>record_count = high + medium + low \<ge> 1\<close>: a category is a row of the table only
  if one of its rows carries a label. So the divisions of lines 74 and 75, which compute
  \<open>high_share\<close> and \<open>med_share\<close>, never divide by zero.
\<close>

theorem record_count_at_least_one:
  assumes "grouped_table X = Inr tmp" and "r \<in> set tmp"
  shows "record_count r = high r + medium r + low r \<and> 1 \<le> record_count r
    \<and> record_count r \<noteq> 0"
  using record_count_ge_1 [OF assms] by (simp add: record_count_def)

theorem record_count_at_least_one_witness:
  "grouped_table train0 =
     Inr [\<lparr>gkey = 1, high = 1, medium = 1, low = 0\<rparr>,
          \<lparr>gkey = 2, high = 0, medium = 0, low = 1\<rparr>]
   \<and> 1 \<le> record_count \<lparr>gkey = 2::nat, high = 0, medium = 0, low = 1\<rparr>
   \<and> record_count \<lparr>gkey = 2::nat, high = 0, medium = 0, low = 1\<rparr> \<noteq> 0"
  using record_count_at_least_one [OF grouped_train0,
      of "\<lparr>gkey = 2, high = 0, medium = 0, low = 1\<rparr>"]
  by (simp add: grouped_train0)

subsection \<open>What transform computes\<close>

lemma apply_all_fill:
  "apply_all (fill a (Some y)) vs = Inr (map (\<lambda>v. case v of Some x \<Rightarrow> x | None \<Rightarrow> y) vs)"
  by (induction vs) (simp_all add: fill_def split: option.splits)

lemma filter_distinct_keys:
  assumes "distinct (map mkey M)"
  shows "filter (\<lambda>m. c = Some (mkey m)) M = (case matching M c of None \<Rightarrow> [] | Some m \<Rightarrow> [m])"
  using assms
proof (induction M)
  case Nil
  show ?case by (simp add: matching_def)
next
  case (Cons m M)
  show ?case
  proof (cases "c = Some (mkey m)")
    case True
    with Cons.prems have "filter (\<lambda>m. c = Some (mkey m)) M = []"
      by (auto simp: filter_empty_conv)
    with True show ?thesis by (simp add: matching_def)
  next
    case False
    with Cons show ?thesis by (simp add: matching_def)
  qed
qed

lemma merge_left_distinct:
  assumes "distinct (map mkey M)"
  shows "merge_left X M =
     map (\<lambda>x. case matching M (category x) of
                 None \<Rightarrow> \<lparr>left_row = x, m_high = None, m_med = None\<rparr>
               | Some m \<Rightarrow> \<lparr>left_row = x, m_high = Some (w_high m), m_med = Some (w_med m)\<rparr>) X"
  by (induction X)
    (simp_all add: merge_left_def filter_distinct_keys [OF assms] split: option.splits)

lemma transform_distinct:
  assumes "mapping self = Some (Frame M)"
    and "columns M = [''w_high_'' @ column_name self, ''w_med_'' @ column_name self,
                      column_name self]"
    and "distinct (map mkey (rows M))"
    and "glob_high self = Some gh" and "glob_med self = Some gm"
  shows "transform self X = (Inr (map (encode_row gh gm (rows M)) X), self)"
proof -
  have "map (\<lambda>(r, h, m). \<lparr>source_row = left_row r, enc_high = h, enc_med = m\<rparr>)
          (zip (merge_left X (rows M))
             (zip (map (\<lambda>v. case v of Some x \<Rightarrow> x | None \<Rightarrow> gh)
                     (map m_high (merge_left X (rows M))))
                  (map (\<lambda>v. case v of Some x \<Rightarrow> x | None \<Rightarrow> gm)
                     (map m_med (merge_left X (rows M))))))
        = map (encode_row gh gm (rows M)) X"
    unfolding merge_left_distinct [OF assms(3)]
    by (rule nth_equalityI) (simp_all add: encode_row_def split: option.splits)
  then show ?thesis
    using assms(1,2,4,5) by (simp add: transform_def Let_def apply_all_fill)
qed

lemma mkey_fitted_rows: "map mkey (fitted_rows k tmp g) = map gkey tmp"
  by (rule nth_equalityI) (simp_all add: fitted_rows_def)

lemma gkey_grouped_table:
  assumes "grouped_table X = Inr tmp"
  shows "map gkey tmp = group_keys (pairs X)"
  by (subst grouped_table_rows [OF assms]) (simp add: comp_def)

lemma fit_result:
  assumes "fit self0 X g = (Inr (), self, g')"
  obtains tmp where "grouped_table X = Inr tmp" and "in_range (threshold self0) tmp"
    and "self = (reset self0)\<lparr>glob_high := Some (glob_share high tmp),
                    glob_med := Some (glob_share medium tmp),
                    mapping := Some (Frame
                      \<lparr>columns = [''w_high_'' @ column_name self0, ''w_med_'' @ column_name self0,
                                  column_name self0],
                       rows = fitted_rows (threshold self0) tmp g\<rparr>)\<rparr>"
    and "g' = (\<lambda>i. g (i + 2 * length tmp))"
proof -
  from assms obtain tmp where t: "grouped_table X = Inr tmp"
    and r: "in_range (threshold self0) tmp" by (rule fit_returns)
  from assms show ?thesis
    unfolding fit_ok [OF t r] by (intro that [OF t r]) simp_all
qed

lemma transform_after_fit:
  assumes "fit self0 X g = (Inr (), self, g')" and "grouped_table X = Inr tmp"
  shows "transform self Y =
    (Inr (map (encode_row (glob_share high tmp) (glob_share medium tmp)
                 (fitted_rows (threshold self0) tmp g)) Y), self)"
proof -
  from assms(1) obtain tmp' where t: "grouped_table X = Inr tmp'"
    and s: "self = (reset self0)\<lparr>glob_high := Some (glob_share high tmp'),
                    glob_med := Some (glob_share medium tmp'),
                    mapping := Some (Frame
                      \<lparr>columns = [''w_high_'' @ column_name self0, ''w_med_'' @ column_name self0,
                                  column_name self0],
                       rows = fitted_rows (threshold self0) tmp' g\<rparr>)\<rparr>"
    by (rule fit_result)
  from t assms(2) have eq: "tmp' = tmp" by simp
  have d: "distinct (map mkey (fitted_rows (threshold self0) tmp g))"
    by (simp add: mkey_fitted_rows gkey_grouped_table [OF assms(2)] distinct_group_keys)
  let ?M = "\<lparr>columns = [''w_high_'' @ column_name self0, ''w_med_'' @ column_name self0,
                          column_name self0],
             rows = fitted_rows (threshold self0) tmp g\<rparr>"
  have "transform self Y =
    (Inr (map (encode_row (glob_share high tmp) (glob_share medium tmp) (rows ?M)) Y), self)"
    by (rule transform_distinct) (simp_all add: s eq column_name_reset d)
  then show ?thesis by simp
qed

lemma encode_row_unseen:
  assumes "category x \<notin> Some ` mkey ` set M"
  shows "encode_row gh gm M x = \<lparr>source_row = x, enc_high = gh, enc_med = gm\<rparr>"
proof -
  have "matching M (category x) = None"
    using assms by (auto simp: matching_def find_None_iff)
  then show ?thesis by (simp add: encode_row_def)
qed

lemma source_encode_row: "source_row (encode_row gh gm M x) = x"
  by (simp add: encode_row_def split: option.splits)

lemma no_overflow:
  assumes "k - x \<le> 600"
  shows "fl (exp (fl (k - x))) < 2 ^ 1024"
proof -
  have "fl (k - x) \<le> fl 600" using assms by (rule fl_mono)
  moreover have "fl 600 = 600" using fl_of_int [of 600] by simp
  ultimately have "exp (fl (k - x)) \<le> 2 ^ 1023" by (intro exp_le_600) simp
  then have "fl (exp (fl (k - x))) \<le> fl (2 ^ 1023)" by (rule fl_mono)
  then have "fl (exp (fl (k - x))) \<le> 2 ^ 1023" by (simp only: fl_pow)
  moreover have "(2::real) ^ 1023 < 2 ^ 1024" by simp
  ultimately show ?thesis by linarith
qed

lemma in_range_train0:
  "in_range 5 [\<lparr>gkey = 1::nat, high = 1, medium = 1, low = 0\<rparr>,
               \<lparr>gkey = 2, high = 0, medium = 0, low = 1\<rparr>]"
  using no_overflow [of 5 2] no_overflow [of 5 1] by (simp add: in_range_def record_count_def)

lemma fit_train0:
  "fit (init ''manager_id'' 5) train0 g =
     (Inr (), fst (snd (fit (init ''manager_id'' 5) train0 g)),
      snd (snd (fit (init ''manager_id'' 5) train0 g)))"
  using in_range_train0 by (simp add: fit_ok [OF grouped_train0] init_def)

lemma fl_third: "fl (1 / 3) = 6004799503160661 / 18014398509481984"
  by (subst fl_normal [where q = "- 54"]) (simp_all add: rne_def)

text \<open>
  Claim C1. For every fitted transformer and every row whose category is not in the
  fitted mapping, \<open>transform\<close> returns exactly the global shares computed by
  \<open>fit\<close>: the \<open>w_high\<close> statistic is \<open>glob_high\<close> and the \<open>w_med\<close> statistic
  is \<open>glob_med\<close>. The call returns one row for each row of the input, in order.
\<close>

theorem unseen_category_gets_global_share:
  assumes "fit self0 X g = (Inr (), self, g')"
  shows "\<exists>tmp M out.
      grouped_table X = Inr tmp \<and> mapping self = Some (Frame M)
    \<and> glob_high self = Some (glob_share high tmp)
    \<and> glob_med self = Some (glob_share medium tmp)
    \<and> transform self Y = (Inr out, self) \<and> length out = length Y
    \<and> (\<forall>i<length Y. source_row (out ! i) = Y ! i
         \<and> (category (Y ! i) \<notin> Some ` mkey ` set (rows M)
              \<longrightarrow> enc_high (out ! i) = glob_share high tmp
                \<and> enc_med (out ! i) = glob_share medium tmp))"
proof -
  from assms obtain tmp where t: "grouped_table X = Inr tmp"
    and "in_range (threshold self0) tmp"
    and s: "self = (reset self0)\<lparr>glob_high := Some (glob_share high tmp),
                    glob_med := Some (glob_share medium tmp),
                    mapping := Some (Frame
                      \<lparr>columns = [''w_high_'' @ column_name self0, ''w_med_'' @ column_name self0,
                                  column_name self0],
                       rows = fitted_rows (threshold self0) tmp g\<rparr>)\<rparr>"
    by (rule fit_result)
  let ?M = "\<lparr>columns = [''w_high_'' @ column_name self0, ''w_med_'' @ column_name self0,
                          column_name self0],
             rows = fitted_rows (threshold self0) tmp g\<rparr>"
  let ?out = "map (encode_row (glob_share high tmp) (glob_share medium tmp) (rows ?M)) Y"
  have "transform self Y = (Inr ?out, self)"
    using transform_after_fit [OF assms t] by simp
  moreover have "mapping self = Some (Frame ?M)" by (simp add: s)
  moreover have "glob_high self = Some (glob_share high tmp)"
    and "glob_med self = Some (glob_share medium tmp)" by (simp_all add: s)
  moreover have "\<forall>i<length Y. source_row (?out ! i) = Y ! i
         \<and> (category (Y ! i) \<notin> Some ` mkey ` set (rows ?M)
              \<longrightarrow> enc_high (?out ! i) = glob_share high tmp
                \<and> enc_med (?out ! i) = glob_share medium tmp)"
    by (simp add: source_encode_row encode_row_unseen)
  moreover have "length ?out = length Y" by simp
  ultimately show ?thesis using t by blast
qed

text \<open>
  Claim C6. \<open>transform\<close> does not modify the object: after any call, failed or not,
  \<open>mapping_\<close>, \<open>glob_high\<close>, \<open>glob_med\<close> and \<open>glob_low\<close> are what they were
  before it, hence what \<open>fit\<close> left; and a second call on the same input gives the
  same result.
\<close>

theorem transform_leaves_state:
  "snd (transform self X) = self
   \<and> mapping (snd (transform self X)) = mapping self
   \<and> glob_high (snd (transform self X)) = glob_high self
   \<and> glob_med (snd (transform self X)) = glob_med self
   \<and> glob_low (snd (transform self X)) = glob_low self
   \<and> transform (snd (transform self X)) X = transform self X"
proof -
  have "snd (transform self X) = self"
    by (simp add: transform_def Let_def split: option.splits attr.splits sum.splits)
  then show ?thesis by simp
qed


theorem unseen_category_gets_global_share_witness:
  "\<exists>self g' out.
     fit (init ''manager_id'' 5) train0 (\<lambda>_. 1 / 2) = (Inr (), self, g')
   \<and> transform self [\<lparr>category = Some 7, interest_level = None\<rparr>] = (Inr out, self)
   \<and> enc_high (out ! 0) = 6004799503160661 / 18014398509481984
   \<and> enc_med (out ! 0) = 6004799503160661 / 18014398509481984"
proof -
  define r where "r = fit (init ''manager_id'' 5) train0 (\<lambda>_. 1 / 2)"
  have f: "fit (init ''manager_id'' 5) train0 (\<lambda>_. 1 / 2) = (Inr (), fst (snd r), snd (snd r))"
    unfolding r_def by (rule fit_train0)
  from unseen_category_gets_global_share
    [OF f, of "[\<lparr>category = Some 7, interest_level = None\<rparr>]"]
  obtain tmp M out where t: "grouped_table train0 = Inr tmp"
    and m: "mapping (fst (snd r)) = Some (Frame M)"
    and tr: "transform (fst (snd r)) [\<lparr>category = Some 7, interest_level = None\<rparr>]
             = (Inr out, fst (snd r))"
    and a: "\<forall>i<length [\<lparr>category = Some (7::nat), interest_level = None\<rparr>].
         source_row (out ! i) = [\<lparr>category = Some 7, interest_level = None\<rparr>] ! i
         \<and> (category ([\<lparr>category = Some 7, interest_level = None\<rparr>] ! i)
                \<notin> Some ` mkey ` set (rows M)
              \<longrightarrow> enc_high (out ! i) = glob_share high tmp
                \<and> enc_med (out ! i) = glob_share medium tmp)"
    by blast
  from a have u: "Some 7 \<notin> Some ` mkey ` set (rows M)
       \<longrightarrow> enc_high (out ! 0) = glob_share high tmp
         \<and> enc_med (out ! 0) = glob_share medium tmp"
    by simp
  from t have tmp: "tmp = [\<lparr>gkey = 1, high = 1, medium = 1, low = 0\<rparr>,
          \<lparr>gkey = 2, high = 0, medium = 0, low = 1\<rparr>]"
    by (simp add: grouped_train0)
  from m in_range_train0 have "map mkey (rows M) = [1, 2]"
    unfolding r_def by (auto simp: fit_ok [OF grouped_train0] init_def mkey_fitted_rows)
  then have "mkey ` set (rows M) = {1, 2}"
    by (metis list.set_map list.simps(15) empty_set)
  with u have "enc_high (out ! 0) = glob_share high tmp
         \<and> enc_med (out ! 0) = glob_share medium tmp"
    by auto
  then have "enc_high (out ! 0) = 6004799503160661 / 18014398509481984
      \<and> enc_med (out ! 0) = 6004799503160661 / 18014398509481984"
    by (simp add: tmp glob_share_def int_columns_def record_count_def fl_third)
  with f tr show ?thesis by blast
qed

subsection \<open>Bounds\<close>

lemma counts_nonneg:
  assumes "grouped_table X = Inr tmp" and "r \<in> set tmp"
  shows "0 \<le> high r" and "0 \<le> medium r" and "0 \<le> low r"
proof -
  from assms obtain k where r: "r = \<lparr>gkey = k, high = group_size (pairs X) k High,
                   medium = group_size (pairs X) k Medium,
                   low = group_size (pairs X) k Low\<rparr>"
    using grouped_table_rows [OF assms(1)] by auto
  show "0 \<le> high r" and "0 \<le> medium r" and "0 \<le> low r"
    by (simp_all add: r group_size_nonneg)
qed

lemma fl_unit:
  assumes "0 \<le> x" and "x \<le> 1"
  shows "0 \<le> fl x" and "fl x \<le> 1"
  using fl_nonneg [OF assms(1)] fl_mono [OF assms(2)] by (simp_all add: fl_one)

lemma share_bounds:
  assumes "grouped_table X = Inr tmp" and "r \<in> set tmp"
  shows "0 \<le> high_share r" and "high_share r \<le> 1"
    and "0 \<le> med_share r" and "med_share r \<le> 1"
proof -
  have p: "0 < record_count r" using record_count_ge_1 [OF assms] by linarith
  have h: "0 \<le> high r" and m: "0 \<le> medium r" and l: "0 \<le> low r"
    using counts_nonneg [OF assms] by simp_all
  have "high r \<le> record_count r" and "medium r \<le> record_count r"
    using h m l by (simp_all add: record_count_def)
  then have a: "high r / record_count r \<le> 1" "medium r / record_count r \<le> 1"
    using p by simp_all
  have b: "0 \<le> high r / record_count r" "0 \<le> medium r / record_count r"
    using p h m by simp_all
  show "0 \<le> high_share r" and "high_share r \<le> 1"
    and "0 \<le> med_share r" and "med_share r \<le> 1"
    unfolding high_share_def med_share_def
    using fl_unit [OF b(1) a(1)] fl_unit [OF b(2) a(2)] by simp_all
qed

lemma length_le_sum_list:
  "(\<And>x. x \<in> set xs \<Longrightarrow> (1::real) \<le> f x) \<Longrightarrow> real (length xs) \<le> sum_list (map f xs)"
  by (induction xs) (simp_all add: add_mono)

lemma grouped_table_nonempty:
  assumes "grouped_table X = Inr tmp"
  shows "tmp \<noteq> []"
proof -
  from grouped_table_labels [OF assms] have "set (group_keys (pairs X)) \<noteq> {}"
    by (auto simp: set_group_keys)
  then show ?thesis by (subst grouped_table_rows [OF assms]) auto
qed

lemma record_total_pos:
  assumes "grouped_table X = Inr tmp"
  shows "0 < sum_list (map record_count tmp)"
proof -
  have "real (length tmp) \<le> sum_list (map record_count tmp)"
    by (rule length_le_sum_list) (rule record_count_ge_1 [OF assms])
  moreover have "0 < real (length tmp)" using grouped_table_nonempty [OF assms] by simp
  ultimately show ?thesis by linarith
qed

lemma floor_unit:
  assumes "0 \<le> x" and "x \<le> (1::real)"
  shows "0 \<le> real_of_int \<lfloor>x\<rfloor>" and "real_of_int \<lfloor>x\<rfloor> \<le> 1"
proof -
  show "0 \<le> real_of_int \<lfloor>x\<rfloor>" using assms(1) by simp
  have "real_of_int \<lfloor>x\<rfloor> \<le> x" by simp
  with assms(2) show "real_of_int \<lfloor>x\<rfloor> \<le> 1" by linarith
qed

lemma glob_share_bounds:
  assumes "grouped_table X = Inr tmp"
  shows "0 \<le> glob_share high tmp" and "glob_share high tmp \<le> 1"
    and "0 \<le> glob_share medium tmp" and "glob_share medium tmp \<le> 1"
proof -
  have p: "0 < sum_list (map record_count tmp)" by (rule record_total_pos [OF assms])
  have h: "0 \<le> sum_list (map high tmp)" and m: "0 \<le> sum_list (map medium tmp)"
    using counts_nonneg [OF assms] by (auto intro!: sum_list_nonneg)
  have "sum_list (map high tmp) \<le> sum_list (map record_count tmp)"
    using counts_nonneg [OF assms] by (intro sum_list_mono) (simp add: record_count_def)
  moreover have "sum_list (map medium tmp) \<le> sum_list (map record_count tmp)"
    using counts_nonneg [OF assms] by (intro sum_list_mono) (simp add: record_count_def)
  ultimately have a: "sum_list (map high tmp) / sum_list (map record_count tmp) \<le> 1"
    "sum_list (map medium tmp) / sum_list (map record_count tmp) \<le> 1"
    using p by simp_all
  have b: "0 \<le> sum_list (map high tmp) / sum_list (map record_count tmp)"
    "0 \<le> sum_list (map medium tmp) / sum_list (map record_count tmp)"
    using p h m by simp_all
  show "0 \<le> glob_share high tmp" and "glob_share high tmp \<le> 1"
    and "0 \<le> glob_share medium tmp" and "glob_share medium tmp \<le> 1"
    unfolding glob_share_def
    using fl_unit [OF b(1) a(1)] fl_unit [OF b(2) a(2)]
      floor_unit [OF b(1) a(1)] floor_unit [OF b(2) a(2)]
    by simp_all
qed

lemma ulp_exp_below_one:
  assumes "x \<noteq> 0" and "\<bar>x\<bar> < 1"
  shows "ulp_exp x \<le> - 53"
proof -
  have "\<lfloor>log 2 \<bar>x\<bar>\<rfloor> < 0"
  proof (rule ccontr)
    assume "\<not> \<lfloor>log 2 \<bar>x\<bar>\<rfloor> < 0"
    then have "(2::real) powi 0 \<le> 2 powi \<lfloor>log 2 \<bar>x\<bar>\<rfloor>"
      by (intro power_int_increasing) simp_all
    with floor_log2_bounds(1) [OF assms(1)] assms(2) show False by simp
  qed
  then show ?thesis unfolding ulp_exp_def by linarith
qed

lemma fl_unit_error:
  assumes "0 \<le> x" and "x \<le> 1"
  shows "fl x \<le> x + 2 powi (- 54)"
proof -
  consider "x = 0" | "x = 1" | "x \<noteq> 0" "\<bar>x\<bar> < 1" using assms by fastforce
  then show ?thesis
  proof cases
    case 1
    then show ?thesis by (simp add: fl_zero)
  next
    case 2
    then show ?thesis by (simp add: fl_one)
  next
    case 3
    then have "ulp_exp x \<le> - 53" by (rule ulp_exp_below_one)
    then have "(2::real) powi ulp_exp x \<le> 2 powi (- 53)"
      by (intro power_int_increasing) simp_all
    moreover have "(2::real) powi (- 53) / 2 = 2 powi (- 54)" by (simp add: power_int_minus)
    ultimately have "(2::real) powi ulp_exp x / 2 \<le> 2 powi (- 54)" by linarith
    with fl_error [of x] show ?thesis by linarith
  qed
qed

lemma blend_bounds:
  assumes "0 \<le> lam" and "lam \<le> 1" and "fl lam = lam"
    and "0 \<le> s" and "s \<le> 1" and "0 \<le> y" and "y \<le> 1"
  shows "0 \<le> blend lam s y" and "blend lam s y \<le> 1"
proof -
  have q0: "0 \<le> fl (1 - lam)" using assms(2) by (intro fl_nonneg) simp
  have "0 \<le> fl (lam * s)" using assms(1,4) by (intro fl_nonneg) simp
  moreover have "0 \<le> fl (fl (1 - lam) * y)" using q0 assms(6) by (intro fl_nonneg) simp
  ultimately show "0 \<le> blend lam s y" unfolding blend_def by (intro fl_nonneg) simp
  have "lam * s \<le> lam * 1" using assms(1,5) by (intro mult_left_mono) simp_all
  then have "fl (lam * s) \<le> fl lam" using fl_mono [of "lam * s" lam] by simp
  then have a: "fl (lam * s) \<le> lam" by (simp only: assms(3))
  have "fl (1 - lam) * y \<le> fl (1 - lam) * 1" using q0 assms(7) by (intro mult_left_mono) simp_all
  then have "fl (fl (1 - lam) * y) \<le> fl (fl (1 - lam))"
    using fl_mono [of "fl (1 - lam) * y" "fl (1 - lam)"] by simp
  then have "fl (fl (1 - lam) * y) \<le> fl (1 - lam)" by (simp only: fl_idem)
  moreover have "fl (1 - lam) \<le> (1 - lam) + 2 powi (- 54)"
    using assms(1,2) by (intro fl_unit_error) simp_all
  ultimately have "fl (lam * s) + fl (fl (1 - lam) * y) \<le> 1 + 2 powi (- 54)"
    using a by linarith
  then have "blend lam s y \<le> fl (1 + 2 powi (- 54))" unfolding blend_def by (rule fl_mono)
  moreover have "fl (1 + 2 powi (- 54)) = 1"
    by (intro fl_one_plus_tiny) (simp_all add: power_int_minus)
  ultimately show "blend lam s y \<le> 1" by simp
qed

lemma weight_bounds:
  assumes "fl (exp (fl (k - x))) < 2 ^ 1024"
  shows "0 < weight k x" and "weight k x \<le> 1" and "fl (weight k x) = weight k x"
proof -
  from assms have "lambda k x = Inr (weight k x)" by (simp add: lambda_eq)
  then show "0 < weight k x" and "weight k x \<le> 1" by (rule lambda_bounds)+
  show "fl (weight k x) = weight k x" by (simp add: weight_def fl_idem)
qed

lemma in_rangeD:
  "in_range k tmp \<Longrightarrow> r \<in> set tmp \<Longrightarrow> fl (exp (fl (k - record_count r))) < 2 ^ 1024"
  by (simp add: in_range_def list_all_iff)

lemma smoothed_bounds:
  assumes "grouped_table X = Inr tmp" and "r \<in> set tmp" and "in_range k tmp"
  shows "0 \<le> smoothed k high_share (glob_share high tmp) r"
    and "smoothed k high_share (glob_share high tmp) r \<le> 1"
    and "0 \<le> smoothed k med_share (glob_share medium tmp) r"
    and "smoothed k med_share (glob_share medium tmp) r \<le> 1"
proof -
  note w = weight_bounds [OF in_rangeD [OF assms(3,2)]]
  have w0: "0 \<le> weight k (record_count r)" using w(1) by simp
  note s = share_bounds [OF assms(1,2)]
  note g = glob_share_bounds [OF assms(1)]
  show "0 \<le> smoothed k high_share (glob_share high tmp) r"
    and "smoothed k high_share (glob_share high tmp) r \<le> 1"
    unfolding smoothed_def
    by (rule blend_bounds [OF w0 w(2,3) s(1,2) g(1,2)])+
  show "0 \<le> smoothed k med_share (glob_share medium tmp) r"
    and "smoothed k med_share (glob_share medium tmp) r \<le> 1"
    unfolding smoothed_def
    by (rule blend_bounds [OF w0 w(2,3) s(3,4) g(3,4)])+
qed

lemma fl_hundredth: "fl (1 / 100) = 5764607523034235 / 576460752303423488"
  by (subst fl_normal [where q = "- 59"]) (simp_all add: rne_def)

lemma fl_half: "fl (1 / 2) = 1 / 2"
  using fl_power2 [of "- 1"] by (simp add: power_int_minus)

lemma fl_half_hundredth:
  "fl (5764607523034235 / 1152921504606846976) = 5764607523034235 / 1152921504606846976"
  by (subst fl_normal [where q = "- 60"]) (simp_all add: rne_def)

lemma factor_least:
  "fl (1 - 5764607523034235 / 1152921504606846976) = 8962163258467287 / 9007199254740992"
  by (subst fl_normal [where q = "- 53"]) (simp_all add: rne_def)

lemma factor_greatest:
  "fl (1 + 5764607523034235 / 1152921504606846976) = 4526117625507348 / 4503599627370496"
  by (subst fl_normal [where q = "- 52"]) (simp_all add: rne_def)

lemma jitter_factor:
  assumes "0 \<le> u" and "u < 1"
  shows "8962163258467287 / 9007199254740992 \<le> fl (1 + fl (fl 0.01 * fl (u - 0.5)))"
    and "fl (1 + fl (fl 0.01 * fl (u - 0.5))) \<le> 4526117625507348 / 4503599627370496"
proof -
  let ?c = "5764607523034235 / 576460752303423488 :: real"
  let ?h = "5764607523034235 / 1152921504606846976 :: real"
  have c: "fl 0.01 = ?c" using fl_hundredth by simp
  have "fl (- (1 / 2)) \<le> fl (u - 0.5)" using assms(1) by (intro fl_mono) simp
  then have lo: "- (1 / 2) \<le> fl (u - 0.5)" by (simp only: fl_minus fl_half)
  have "fl (u - 0.5) \<le> fl (1 / 2)" using assms(2) by (intro fl_mono) simp
  then have hi: "fl (u - 0.5) \<le> 1 / 2" by (simp only: fl_half)
  have "?c * (- (1 / 2)) \<le> ?c * fl (u - 0.5)" using lo by (intro mult_left_mono) simp_all
  then have "- ?h \<le> ?c * fl (u - 0.5)" by simp
  then have "fl (- ?h) \<le> fl (?c * fl (u - 0.5))" by (rule fl_mono)
  then have tlo: "- ?h \<le> fl (?c * fl (u - 0.5))" by (simp only: fl_minus fl_half_hundredth)
  have "?c * fl (u - 0.5) \<le> ?c * (1 / 2)" using hi by (intro mult_left_mono) simp_all
  then have "?c * fl (u - 0.5) \<le> ?h" by simp
  then have "fl (?c * fl (u - 0.5)) \<le> fl ?h" by (rule fl_mono)
  then have thi: "fl (?c * fl (u - 0.5)) \<le> ?h" by (simp only: fl_half_hundredth)
  have "fl (1 - ?h) \<le> fl (1 + fl (?c * fl (u - 0.5)))" using tlo by (intro fl_mono) simp
  then show "8962163258467287 / 9007199254740992 \<le> fl (1 + fl (fl 0.01 * fl (u - 0.5)))"
    by (simp only: factor_least c)
  have "fl (1 + fl (?c * fl (u - 0.5))) \<le> fl (1 + ?h)" using thi by (intro fl_mono) simp
  then show "fl (1 + fl (fl 0.01 * fl (u - 0.5))) \<le> 4526117625507348 / 4503599627370496"
    by (simp only: factor_greatest c)
qed

lemma jitter_bounds:
  assumes "0 \<le> b" and "b \<le> 1" and "0 \<le> u" and "u < 1"
  shows "0 \<le> jitter b u" and "jitter b u < 1.005"
proof -
  let ?f = "fl (1 + fl (fl 0.01 * fl (u - 0.5)))"
  note f = jitter_factor [OF assms(3,4)]
  have f0: "0 \<le> ?f" using f(1) by linarith
  show "0 \<le> jitter b u" unfolding jitter_def using assms(1) f0 by (intro fl_nonneg) simp
  have "b * ?f \<le> 1 * ?f" using assms(2) f0 by (intro mult_right_mono) simp_all
  then have "fl (b * ?f) \<le> fl ?f" using fl_mono [of "b * ?f" ?f] by simp
  then have "jitter b u \<le> ?f" by (simp only: jitter_def fl_idem)
  with f(2) show "jitter b u < 1.005" by simp
qed

lemma nth_fitted_rows:
  "i < length tmp \<Longrightarrow> fitted_rows k tmp g ! i =
     \<lparr>w_high = jitter (smoothed k high_share (glob_share high tmp) (tmp ! i)) (g i),
      w_med = jitter (smoothed k med_share (glob_share medium tmp) (tmp ! i))
                (g (length tmp + i)),
      mkey = gkey (tmp ! i)\<rparr>"
  by (simp add: fitted_rows_def)

lemma length_fitted_rows: "length (fitted_rows k tmp g) = length tmp"
  by (simp add: fitted_rows_def)

lemma set_pairs_iff:
  "(k, l) \<in> set (pairs X) \<longleftrightarrow> (\<exists>x\<in>set X. category x = Some k \<and> interest_level x = Some l)"
  by (induction X) (auto simp: pairs_def split: option.splits)

lemma set_pairs:
  "fst ` set (pairs X) = {k. \<exists>x\<in>set X. category x = Some k \<and> interest_level x \<noteq> None}"
proof (rule set_eqI)
  fix k
  have "k \<in> fst ` set (pairs X) \<longleftrightarrow> (\<exists>l. (k, l) \<in> set (pairs X))"
    by force
  also have "\<dots> \<longleftrightarrow> (\<exists>x\<in>set X. category x = Some k \<and> interest_level x \<noteq> None)"
    unfolding set_pairs_iff by blast
  finally show "k \<in> fst ` set (pairs X)
    \<longleftrightarrow> k \<in> {k. \<exists>x\<in>set X. category x = Some k \<and> interest_level x \<noteq> None}"
    by simp
qed

lemma encode_row_cases:
  "(enc_high (encode_row gh gm M x) = gh \<and> enc_med (encode_row gh gm M x) = gm)
   \<or> (\<exists>m\<in>set M. enc_high (encode_row gh gm M x) = w_high m
                 \<and> enc_med (encode_row gh gm M x) = w_med m)"
proof (cases "matching M (category x)")
  case None
  then show ?thesis by (simp add: encode_row_def)
next
  case (Some m)
  then have "m \<in> set M"
    by (auto simp: matching_def find_Some_iff)
  with Some show ?thesis by (auto simp: encode_row_def)
qed

lemma fitted_rows_bounds:
  assumes t: "grouped_table X = Inr tmp" and r: "in_range k tmp"
    and g: "\<forall>i. 0 \<le> g i \<and> g i < 1"
    and m: "m \<in> set (fitted_rows k tmp g)"
  shows "0 \<le> w_high m \<and> w_high m < 1.005 \<and> 0 \<le> w_med m \<and> w_med m < 1.005"
proof -
  from m obtain i where i: "i < length tmp" and mi: "m = fitted_rows k tmp g ! i"
    by (auto simp: in_set_conv_nth length_fitted_rows)
  have ri: "tmp ! i \<in> set tmp" using i by simp
  note b = smoothed_bounds [OF t ri r]
  from g have gi: "0 \<le> g i" "g i < 1" "0 \<le> g (length tmp + i)" "g (length tmp + i) < 1"
    by simp_all
  show ?thesis
    using jitter_bounds [OF b(1,2) gi(1,2)] jitter_bounds [OF b(3,4) gi(3,4)]
    by (simp add: mi nth_fitted_rows [OF i])
qed

subsection \<open>The smoothing weight\<close>

lemma exp_ge_721: "(2::real) ^ 1024 \<le> exp 721"
proof -
  have "(2::real) ^ 10 \<le> (27 / 10) ^ 7" by (simp add: power_divide)
  also have "\<dots> \<le> exp 1 ^ 7" using exp_one_ge by (intro power_mono) simp_all
  also have "\<dots> = exp (7::real)" by (simp flip: exp_of_nat_mult)
  finally have "((2::real) ^ 10) ^ 103 \<le> exp 7 ^ 103" by (intro power_mono) simp_all
  moreover have "exp (7::real) ^ 103 = exp 721" by (simp flip: exp_of_nat_mult)
  moreover have "(2::real) ^ 1024 \<le> (2 ^ 10) ^ 103" by simp
  ultimately show ?thesis by linarith
qed

lemma lambda_overflow:
  assumes "721 \<le> k - x"
  shows "lambda k x = Inl (OverflowError ''math range error'')"
proof -
  have "fl 721 \<le> fl (k - x)" using assms by (rule fl_mono)
  moreover have "fl 721 = 721" using fl_of_int [of 721] by simp
  ultimately have "exp 721 \<le> exp (fl (k - x))" by simp
  with exp_ge_721 have "2 ^ 1024 \<le> exp (fl (k - x))" by linarith
  then have "fl (2 ^ 1024) \<le> fl (exp (fl (k - x)))" by (rule fl_mono)
  then have "2 ^ 1024 \<le> fl (exp (fl (k - x)))" by (simp only: fl_pow)
  then show ?thesis by (simp add: lambda_eq)
qed

lemma lambda_returns:
  assumes "k - x \<le> 600"
  shows "lambda k x = Inr (weight k x)"
  using no_overflow [OF assms] by (simp add: lambda_eq)

text \<open>
  Claim C2 says that the weight \<open>1 / (1 + exp (threshold - n))\<close> is strictly increasing
  in the frequency \<open>n\<close> and lies strictly between 0 and 1. In double precision the
  summand \<open>exp (threshold - n)\<close> is absorbed by \<open>1.0\<close> once it is below
  \<open>2 powi - 53\<close>: with threshold 5 the frequencies 50 and 51 get the same weight,
  and it is exactly 1.
\<close>

theorem lambda_saturates_counterexample:
  "lambda 5 50 = Inr 1 \<and> lambda 5 51 = Inr 1"
  by (simp add: lambda_saturated)

text \<open>
  Claim C2, amended. The weight that line 81 computes for a frequency \<open>x\<close> is the
  double-precision value of \<open>1 / (1 + exp (threshold - x))\<close>. It is greater than 0
  and at most 1; it does not decrease when the frequency grows, and a frequency above one
  at which line 81 returns returns as well; it is exactly 1 from \<open>x - threshold = 37\<close>
  on. Line 81 returns when \<open>threshold - x\<close> is at most 600 and raises
  \<open>OverflowError\<close> when it is 721 or more.
\<close>

theorem lambda_nondecreasing_bounded:
  "(lambda k x = Inr a \<longrightarrow>
      a = fl (1 / fl (1 + fl (exp (fl (k - x))))) \<and> 0 < a \<and> a \<le> 1)
   \<and> (x \<le> y \<and> lambda k x = Inr a \<longrightarrow> (\<exists>b. lambda k y = Inr b \<and> a \<le> b))
   \<and> (37 \<le> x - k \<longrightarrow> lambda k x = Inr 1)
   \<and> (k - x \<le> 600 \<longrightarrow> (\<exists>b. lambda k x = Inr b))
   \<and> (721 \<le> k - x \<longrightarrow> lambda k x = Inl (OverflowError ''math range error''))"
proof -
  have "a = fl (1 / fl (1 + fl (exp (fl (k - x)))))" if "lambda k x = Inr a"
    using that by (simp add: lambda_eq weight_def split: if_splits)
  moreover have "0 < a \<and> a \<le> 1" if "lambda k x = Inr a"
    using lambda_bounds [OF that] by simp
  moreover have "\<exists>b. lambda k y = Inr b \<and> a \<le> b" if "x \<le> y" "lambda k x = Inr a"
    using that by (rule lambda_mono)
  moreover have "\<exists>b. lambda k x = Inr b" if "k - x \<le> 600"
    using lambda_returns [OF that] by blast
  ultimately show ?thesis
    using lambda_saturated [of x k] lambda_overflow [of k x] by blast
qed

theorem lambda_nondecreasing_bounded_witness:
  "lambda 5 50 = Inr 1 \<and> (0::real) < 1
   \<and> (\<exists>b. lambda 5 51 = Inr b \<and> 1 \<le> b)
   \<and> (\<exists>b. lambda 5 2 = Inr b)
   \<and> lambda 1000 1 = Inl (OverflowError ''math range error'')"
proof -
  note a = lambda_nondecreasing_bounded [of 5 50 1 51]
  note b = lambda_nondecreasing_bounded [of 5 2 1 2]
  note c = lambda_nondecreasing_bounded [of 1000 1 1 1]
  from a have s: "lambda 5 50 = Inr 1" by simp
  with a have "\<exists>b. lambda 5 51 = Inr b \<and> 1 \<le> b" by simp
  moreover from b have "\<exists>b. lambda 5 2 = Inr b" by simp
  moreover from c have "lambda 1000 1 = Inl (OverflowError ''math range error'')" by simp
  ultimately show ?thesis using s by simp
qed

subsection \<open>The stored statistics\<close>

lemma pairs_train1: "pairs train1 = [(1, High), (1, Medium), (2, High), (2, Low)]"
  by (simp add: pairs_def train1_def List.map_filter_simps)

lemma grouped_train1:
  "grouped_table train1 =
     Inr [\<lparr>gkey = 1, high = 1, medium = 1, low = 0\<rparr>,
          \<lparr>gkey = 2, high = 1, medium = 0, low = 1\<rparr>]"
  by (simp add: grouped_table_def pairs_train1 group_keys_def group_size_def)

lemma in_range_train1:
  "in_range 2 [\<lparr>gkey = 1::nat, high = 1, medium = 1, low = 0\<rparr>,
               \<lparr>gkey = 2, high = 1, medium = 0, low = 1\<rparr>]"
  using no_overflow [of 2 2] by (simp add: in_range_def record_count_def)

lemma fl_two: "fl 2 = 2"
  using fl_of_int [of 2] by simp

lemma fl_quarter: "fl (1 / 4) = 1 / 4"
  using fl_power2 [of "- 2"] by (simp add: power_int_minus)

lemma fl_eighth: "fl (1 / 8) = 1 / 8"
  using fl_power2 [of "- 3"] by (simp add: power_int_minus)

lemma fl_three_eighths: "fl (3 / 8) = 3 / 8"
  using fl_repr [of 3 "- 3"] by (simp add: power_int_minus)

lemma factor_least_eval:
  "fl (1147156897083812741 / 1152921504606846976) = 8962163258467287 / 9007199254740992"
  using factor_least by simp

lemma factor_zero:
  "fl (1 + fl (fl (1 / 100) * fl (- (1 / 2)))) = 8962163258467287 / 9007199254740992"
  by (simp add: fl_minus fl_half fl_hundredth fl_half_hundredth factor_least_eval)

lemma stored_half:
  "fl (8962163258467287 / 18014398509481984) = 8962163258467287 / 18014398509481984"
  by (subst fl_normal [where q = "- 54"]) (simp_all add: rne_def)

lemma stored_three_eighths:
  "fl (26886489775401861 / 72057594037927936) = 6721622443850465 / 18014398509481984"
  by (subst fl_normal [where q = "- 54"]) (simp_all add: rne_def)

lemma stored_eighth:
  "fl (8962163258467287 / 72057594037927936) = 8962163258467287 / 72057594037927936"
  by (subst fl_normal [where q = "- 56"]) (simp_all add: rne_def)

lemma weight_2_2: "weight 2 2 = 1 / 2"
  using lambda_at_threshold [of 2 2] no_overflow [of 2 2] by (simp add: lambda_eq)

lemma fitted_train1:
  "fitted_rows 2 [\<lparr>gkey = 1::nat, high = 1, medium = 1, low = 0\<rparr>,
               \<lparr>gkey = 2, high = 1, medium = 0, low = 1\<rparr>] (\<lambda>_. 0)
   = [\<lparr>w_high = 8962163258467287 / 18014398509481984,
       w_med = 6721622443850465 / 18014398509481984, mkey = 1\<rparr>,
      \<lparr>w_high = 8962163258467287 / 18014398509481984,
       w_med = 8962163258467287 / 72057594037927936, mkey = 2\<rparr>]"
  by (simp add: fitted_rows_def jitter_def smoothed_def blend_def high_share_def med_share_def
      glob_share_def int_columns_def record_count_def weight_2_2 fl_zero fl_one fl_half
      fl_quarter fl_eighth fl_three_eighths factor_zero stored_half stored_three_eighths
      stored_eighth)

lemma fit_train1:
  "fit (init ''manager_id'' 2) train1 (\<lambda>_. 0) =
     (Inr (),
      \<lparr>threshold = 2, column_name = ''manager_id'',
       mapping = Some (Frame
         \<lparr>columns = [''w_high_manager_id'', ''w_med_manager_id'', ''manager_id''],
          rows = [\<lparr>w_high = 8962163258467287 / 18014398509481984,
                    w_med = 6721622443850465 / 18014398509481984, mkey = 1\<rparr>,
                  \<lparr>w_high = 8962163258467287 / 18014398509481984,
                    w_med = 8962163258467287 / 72057594037927936, mkey = 2\<rparr>]\<rparr>),
       glob_med = Some (1 / 4), glob_high = Some (1 / 2), glob_low = None\<rparr>,
      \<lambda>_. 0)"
proof -
  have th: "threshold (init ''manager_id'' 2 :: nat categorical_transformer) = 2"
    by (simp add: init_def)
  have r: "in_range (threshold (init ''manager_id'' 2 :: nat categorical_transformer))
      [\<lparr>gkey = 1::nat, high = 1, medium = 1, low = 0\<rparr>,
       \<lparr>gkey = 2, high = 1, medium = 0, low = 1\<rparr>]"
    unfolding th by (rule in_range_train1)
  show ?thesis
    unfolding fit_ok [OF grouped_train1 r] th fitted_train1
    by (simp add: init_def reset_def glob_share_def int_columns_def record_count_def
        fl_half fl_quarter)
qed

lemma map_record_count: "map record_count tmp = map (\<lambda>r. high r + medium r + low r) tmp"
  by (simp add: record_count_def)

lemma float_columns:
  assumes "\<exists>r\<in>set tmp. high r = 0 \<or> medium r = 0 \<or> low r = 0"
  shows "glob_share col tmp
    = fl (sum_list (map col tmp) / sum_list (map (\<lambda>r. high r + medium r + low r) tmp))"
  using assms by (auto simp: glob_share_def int_columns_def list_all_iff map_record_count)

lemma jitter_factor_near_one:
  assumes "0 \<le> u" and "u < 1"
  shows "\<bar>fl (1 + fl (fl 0.01 * fl (u - 0.5))) - 1\<bar> \<le> 0.005 + 1 / 10 ^ 17"
proof -
  let ?f = "fl (1 + fl (fl 0.01 * fl (u - 0.5)))"
  note f = jitter_factor [OF assms]
  have "(1 - (0.005 + 1 / 10 ^ 17) :: real) \<le> 8962163258467287 / 9007199254740992" by simp
  with f(1) have "1 - (0.005 + 1 / 10 ^ 17) \<le> ?f" by linarith
  moreover have "(4526117625507348 / 4503599627370496 :: real) \<le> 1 + (0.005 + 1 / 10 ^ 17)"
    by simp
  with f(2) have "?f \<le> 1 + (0.005 + 1 / 10 ^ 17)" by linarith
  ultimately show ?thesis by (simp only: abs_le_iff) linarith
qed

text \<open>
  Claim C4, amended. For every seen category, \<open>fit\<close> stores the double product of
  a blend and a jitter factor. The blend is \<open>lambda * share + (1 - lambda) * global\<close>
  evaluated in double precision, with the logistic weight of the category's frequency, the
  category's share and, when the counts are held as floats (some category lacks one of the
  three labels), the share of the label among all rows. The factor is
  \<open>1 + 0.01 * (u - 0.5)\<close> evaluated in double precision, for one draw \<open>u\<close>; for a
  draw in \<open>[0, 1)\<close> it differs from 1 by at most \<open>0.005 + 1 / 10 ^ 17\<close>. Row
  \<open>i\<close> of the mapping is the category of row \<open>i\<close> of the grouped table, and the
  categories of the mapping are those that occur with a label.
\<close>

theorem fit_stores_jittered_blend:
  assumes "fit self0 X g = (Inr (), self, g')"
    and "grouped_table X = Inr tmp"
    and "\<exists>r\<in>set tmp. high r = 0 \<or> medium r = 0 \<or> low r = 0"
  shows "\<exists>M.
      mapping self = Some (Frame M)
    \<and> length (rows M) = length tmp
    \<and> mkey ` set (rows M)
        = {k. \<exists>x\<in>set X. category x = Some k \<and> interest_level x \<noteq> None}
    \<and> (\<forall>i<length tmp.
          let n = high (tmp ! i) + medium (tmp ! i) + low (tmp ! i);
              total = sum_list (map (\<lambda>r. high r + medium r + low r) tmp);
              lam = fl (1 / fl (1 + fl (exp (fl (threshold self0 - n)))));
              blend_high = fl (fl (lam * fl (high (tmp ! i) / n))
                             + fl (fl (1 - lam) * fl (sum_list (map high tmp) / total)));
              blend_med = fl (fl (lam * fl (medium (tmp ! i) / n))
                            + fl (fl (1 - lam) * fl (sum_list (map medium tmp) / total)))
          in mkey (rows M ! i) = gkey (tmp ! i)
           \<and> w_high (rows M ! i)
               = fl (blend_high * fl (1 + fl (fl 0.01 * fl (g i - 0.5))))
           \<and> w_med (rows M ! i)
               = fl (blend_med * fl (1 + fl (fl 0.01 * fl (g (length tmp + i) - 0.5)))))
    \<and> (\<forall>u. 0 \<le> u \<and> u < 1
          \<longrightarrow> \<bar>fl (1 + fl (fl 0.01 * fl (u - 0.5))) - 1\<bar> \<le> 0.005 + 1 / 10 ^ 17)"
proof -
  from assms(1) obtain tmp' where t: "grouped_table X = Inr tmp'"
    and s: "self = (reset self0)\<lparr>glob_high := Some (glob_share high tmp'),
                    glob_med := Some (glob_share medium tmp'),
                    mapping := Some (Frame
                      \<lparr>columns = [''w_high_'' @ column_name self0, ''w_med_'' @ column_name self0,
                                  column_name self0],
                       rows = fitted_rows (threshold self0) tmp' g\<rparr>)\<rparr>"
    by (rule fit_result)
  from t assms(2) have eq: "tmp' = tmp" by simp
  let ?M = "\<lparr>columns = [''w_high_'' @ column_name self0, ''w_med_'' @ column_name self0,
                          column_name self0],
             rows = fitted_rows (threshold self0) tmp g\<rparr>"
  have m: "mapping self = Some (Frame ?M)" by (simp add: s eq)
  have len: "length (rows ?M) = length tmp" by (simp add: length_fitted_rows)
  have "mkey ` set (rows ?M) = set (map mkey (fitted_rows (threshold self0) tmp g))"
    by simp
  also have "\<dots> = fst ` set (pairs X)"
    by (simp only: mkey_fitted_rows gkey_grouped_table [OF assms(2)] set_group_keys)
  finally have keys: "mkey ` set (rows ?M)
        = {k. \<exists>x\<in>set X. category x = Some k \<and> interest_level x \<noteq> None}"
    by (simp only: set_pairs)
  have rows: "\<forall>i<length tmp.
          let n = high (tmp ! i) + medium (tmp ! i) + low (tmp ! i);
              total = sum_list (map (\<lambda>r. high r + medium r + low r) tmp);
              lam = fl (1 / fl (1 + fl (exp (fl (threshold self0 - n)))));
              blend_high = fl (fl (lam * fl (high (tmp ! i) / n))
                             + fl (fl (1 - lam) * fl (sum_list (map high tmp) / total)));
              blend_med = fl (fl (lam * fl (medium (tmp ! i) / n))
                            + fl (fl (1 - lam) * fl (sum_list (map medium tmp) / total)))
          in mkey (rows ?M ! i) = gkey (tmp ! i)
           \<and> w_high (rows ?M ! i)
               = fl (blend_high * fl (1 + fl (fl 0.01 * fl (g i - 0.5))))
           \<and> w_med (rows ?M ! i)
               = fl (blend_med * fl (1 + fl (fl 0.01 * fl (g (length tmp + i) - 0.5))))"
    by (simp add: Let_def nth_fitted_rows jitter_def smoothed_def blend_def weight_def
        high_share_def med_share_def record_count_def float_columns [OF assms(3)])
  have jit: "\<forall>u. 0 \<le> u \<and> u < 1
          \<longrightarrow> \<bar>fl (1 + fl (fl 0.01 * fl (u - 0.5))) - 1\<bar> \<le> 0.005 + 1 / 10 ^ 17"
    using jitter_factor_near_one by blast
  from m len keys rows jit show ?thesis by blast
qed


lemma all_less_two: "(\<forall>i<Suc (Suc 0). P i) \<longleftrightarrow> P 0 \<and> P (Suc 0)"
  by (auto simp: less_Suc_eq)

text \<open>
  Claim C4 says that the stored statistic is the blend perturbed by at most 0.5 percent.
  On \<open>train1\<close> with threshold 2 and every draw 0, the blend of the first category is
  exactly \<open>1 / 2\<close>, and the stored \<open>w_high\<close> differs from it by more than 0.5
  percent: the factor is the double just below \<open>0.995\<close>.
\<close>

theorem jitter_exceeds_half_percent_counterexample:
  "\<exists>self g' M.
     fit (init ''manager_id'' 2) train1 (\<lambda>_. 0) = (Inr (), self, g')
   \<and> mapping self = Some (Frame M)
   \<and> fl (fl (fl (1 / fl (1 + fl (exp (fl (2 - 2))))) * fl (1 / 2))
         + fl (fl (1 - fl (1 / fl (1 + fl (exp (fl (2 - 2)))))) * fl (2 / 4))) = 1 / 2
   \<and> \<not> \<bar>w_high (rows M ! 0) / (1 / 2) - 1\<bar> \<le> 0.005"
proof -
  have "fl (fl (fl (1 / fl (1 + fl (exp (fl (2 - 2))))) * fl (1 / 2))
         + fl (fl (1 - fl (1 / fl (1 + fl (exp (fl (2 - 2)))))) * fl (2 / 4))) = 1 / 2"
    by (simp add: fl_zero fl_one fl_two fl_half fl_quarter)
  then show ?thesis
    unfolding fit_train1 by simp
qed

theorem fit_stores_jittered_blend_witness:
  "\<exists>self g' M.
     fit (init ''manager_id'' 2) train1 (\<lambda>_. 0) = (Inr (), self, g')
   \<and> mapping self = Some (Frame M)
   \<and> w_high (rows M ! 0) = 8962163258467287 / 18014398509481984
   \<and> w_med (rows M ! 0) = 6721622443850465 / 18014398509481984
   \<and> w_high (rows M ! 1) = 8962163258467287 / 18014398509481984
   \<and> w_med (rows M ! 1) = 8962163258467287 / 72057594037927936
   \<and> \<bar>fl (1 + fl (fl 0.01 * fl (0 - 0.5))) - 1\<bar> \<le> 0.005 + 1 / 10 ^ 17"
proof -
  define r where "r = fit (init ''manager_id'' 2) train1 (\<lambda>_. 0)"
  have f: "fit (init ''manager_id'' 2) train1 (\<lambda>_. 0) = (Inr (), fst (snd r), snd (snd r))"
    unfolding r_def by (simp add: fit_train1)
  have h: "\<exists>r\<in>set [\<lparr>gkey = 1::nat, high = 1, medium = 1, low = 0\<rparr>,
                      \<lparr>gkey = 2, high = 1, medium = 0, low = 1\<rparr>].
             high r = 0 \<or> medium r = 0 \<or> low r = 0"
    by simp
  from fit_stores_jittered_blend [OF f grouped_train1 h]
  obtain M where m: "mapping (fst (snd r)) = Some (Frame M)"
    and rows: "\<forall>i<length [\<lparr>gkey = 1::nat, high = 1, medium = 1, low = 0\<rparr>,
                      \<lparr>gkey = 2, high = 1, medium = 0, low = 1\<rparr>].
          let tmp = [\<lparr>gkey = 1::nat, high = 1, medium = 1, low = 0\<rparr>,
                      \<lparr>gkey = 2, high = 1, medium = 0, low = 1\<rparr>];
              n = high (tmp ! i) + medium (tmp ! i) + low (tmp ! i);
              total = sum_list (map (\<lambda>r. high r + medium r + low r) tmp);
              lam = fl (1 / fl (1 + fl (exp
                      (fl (threshold (init ''manager_id'' 2 :: nat categorical_transformer) - n)))));
              blend_high = fl (fl (lam * fl (high (tmp ! i) / n))
                             + fl (fl (1 - lam) * fl (sum_list (map high tmp) / total)));
              blend_med = fl (fl (lam * fl (medium (tmp ! i) / n))
                            + fl (fl (1 - lam) * fl (sum_list (map medium tmp) / total)))
          in mkey (rows M ! i) = gkey (tmp ! i)
           \<and> w_high (rows M ! i)
               = fl (blend_high * fl (1 + fl (fl 0.01 * fl (0 - 0.5))))
           \<and> w_med (rows M ! i)
               = fl (blend_med * fl (1 + fl (fl 0.01 * fl (0 - 0.5))))"
    and j: "\<forall>u. 0 \<le> u \<and> u < 1
          \<longrightarrow> \<bar>fl (1 + fl (fl 0.01 * fl (u - 0.5))) - 1\<bar> \<le> 0.005 + 1 / 10 ^ 17"
    unfolding Let_def by blast
  from rows have "w_high (rows M ! 0) = 8962163258467287 / 18014398509481984
   \<and> w_med (rows M ! 0) = 6721622443850465 / 18014398509481984
   \<and> w_high (rows M ! 1) = 8962163258467287 / 18014398509481984
   \<and> w_med (rows M ! 1) = 8962163258467287 / 72057594037927936"
    by (simp add: Let_def init_def all_less_two fl_zero fl_one fl_two fl_half fl_quarter
        fl_eighth fl_three_eighths factor_zero stored_half stored_three_eighths stored_eighth)
  moreover from j have "\<bar>fl (1 + fl (fl 0.01 * fl (0 - 0.5))) - 1\<bar> \<le> 0.005 + 1 / 10 ^ 17"
    by (intro j [rule_format]) simp
  ultimately show ?thesis using f m by blast
qed

end
